theory Spec2Isabelle
  imports Complex_Main
begin

section \<open>Rotations (src/rotation.py)\<close>

text \<open>
  Numbers. The source computes with Python floats. They are modelled here as real numbers:
  every arithmetic operation is the exact one, rounding is not modelled. The float operator
  \<^verbatim>\<open>%\<close> with a positive modulus is \<open>pymod\<close> (the result carries the sign of the
  modulus); \<^verbatim>\<open>round\<close> is the rounding of Python 2 (the source is a Python 2 module:
  \<^verbatim>\<open>from __future__ import division\<close>), half away from zero. Statements proved here are
  statements about the exact arithmetic of the source's formulas; the concrete inputs at
  which a property fails are chosen so that the branch taken does not depend on rounding.
\<close>

definition pymod :: "real \<Rightarrow> real \<Rightarrow> real" where
  "pymod a b = a - b * of_int \<lfloor>a / b\<rfloor>"

definition py_round :: "real \<Rightarrow> real" where
  "py_round a = (if 0 \<le> a then of_int \<lfloor>a + 1/2\<rfloor> else - of_int \<lfloor>- a + 1/2\<rfloor>)"

subsection \<open>smooth_near_quarter_turn\<close>

definition smooth_near_quarter_turn :: "real \<Rightarrow> real" where
  "smooth_near_quarter_turn turns =
     (let err = pymod (turns - 0.125) 0.25 - 0.125
      in if \<bar>err\<bar> < 0.000001 then py_round (turns * 4) / 4 else turns)"

subsection \<open>class Rotation\<close>

text \<open>
  The fields \<^verbatim>\<open>v\<close>, \<^verbatim>\<open>x\<close>, \<^verbatim>\<open>y\<close>, \<^verbatim>\<open>z\<close> of the class, prefixed so that
  they do not capture the variable names. \<open>Rotation_init\<close> is \<^verbatim>\<open>__init__\<close>, the only
  place that writes them.
\<close>

record Rotation =
  rot_v :: "real \<times> real \<times> real"
  rot_x :: real
  rot_y :: real
  rot_z :: real

definition Rotation_init :: "real \<Rightarrow> real \<Rightarrow> real \<Rightarrow> Rotation" where
  "Rotation_init x y z = \<lparr>rot_v = (x, y, z), rot_x = x, rot_y = y, rot_z = z\<rparr>"

definition turns :: "Rotation \<Rightarrow> real" where
  "turns r = sqrt ((rot_x r)\<^sup>2 + (rot_y r)\<^sup>2 + (rot_z r)\<^sup>2)"

definition axis :: "Rotation \<Rightarrow> real \<times> real \<times> real" where
  "axis r =
     (let length = turns r
      in if length < 0.0000001 then (0, 0, 0)
         else (rot_x r / length, rot_y r / length, rot_z r / length))"

text \<open>\<^verbatim>\<open>__canonical\<close>: the comparison key of \<^verbatim>\<open>__eq__\<close> and \<^verbatim>\<open>__hash__\<close>.\<close>

definition canonical :: "Rotation \<Rightarrow> real \<times> real \<times> real \<times> real" where
  "canonical r =
     (case axis r of (x, y, z) \<Rightarrow>
      let t = turns r;
          s = x;
          s = (if s = 0 then y else s);
          s = (if s = 0 then z else s)
      in case (if s < 0 then (- t, - x, - y, - z) else (t, x, y, z)) of (t, x, y, z) \<Rightarrow>
         let t = pymod t 1
         in if t = 0 then (0, 0, 0, 0)
            else let t = (if t \<ge> 0.5 then t - 1 else t) in (t, x, y, z))"

text \<open>\<^verbatim>\<open>__eq__\<close> and \<^verbatim>\<open>__neg__\<close>.\<close>

definition Rotation_eq :: "Rotation \<Rightarrow> Rotation \<Rightarrow> bool" where
  "Rotation_eq self other = (canonical self = canonical other)"

definition Rotation_neg :: "Rotation \<Rightarrow> Rotation" where
  "Rotation_neg self = Rotation_init (- rot_x self) (- rot_y self) (- rot_z self)"

subsection \<open>plus_rotation_simplified\<close>

text \<open>
  The value the function returns. \<^verbatim>\<open>prev_rotations[-1]\<close> and \<^verbatim>\<open>prev_rotations[-2]\<close>
  are read only behind the guards \<^verbatim>\<open>n >= 1\<close> and \<^verbatim>\<open>n >= 2\<close> (\<^verbatim>\<open>and\<close> is
  short-circuit), so no IndexError can be raised.
\<close>

definition plus_rotation_simplified :: "Rotation list \<Rightarrow> Rotation \<Rightarrow> Rotation list" where
  "plus_rotation_simplified prev_rotations next_rotation =
     (let n = length prev_rotations
      in if n \<ge> 1 \<and> Rotation_eq next_rotation (Rotation_neg (prev_rotations ! (n - 1)))
         then take (n - 1) prev_rotations
         else if n \<ge> 2 \<and> turns next_rotation = 0.25
                 \<and> Rotation_eq next_rotation (prev_rotations ! (n - 1))
                 \<and> Rotation_eq next_rotation (prev_rotations ! (n - 2))
         then take (n - 2) prev_rotations @ [Rotation_neg next_rotation]
         else prev_rotations @ [next_rotation])"

text \<open>
  The same function on a store of list objects, to speak about mutation and aliasing. A
  store is the sequence of the lists allocated so far, an address is an index into it. A
  slice, a list display and \<^verbatim>\<open>+\<close> each allocate a new list; the function contains no
  statement that writes to an existing one.
\<close>

type_synonym store = "Rotation list list"

definition new_list :: "Rotation list \<Rightarrow> store \<Rightarrow> nat \<times> store" where
  "new_list xs h = (length h, h @ [xs])"

definition plus_rotation_simplified_store :: "store \<Rightarrow> nat \<Rightarrow> Rotation \<Rightarrow> nat \<times> store" where
  "plus_rotation_simplified_store h prev_rotations next_rotation =
     (let n = length (h ! prev_rotations)
      in if n \<ge> 1 \<and> Rotation_eq next_rotation (Rotation_neg ((h ! prev_rotations) ! (n - 1)))
         then new_list (take (n - 1) (h ! prev_rotations)) h
         else if n \<ge> 2 \<and> turns next_rotation = 0.25
                 \<and> Rotation_eq next_rotation ((h ! prev_rotations) ! (n - 1))
                 \<and> Rotation_eq next_rotation ((h ! prev_rotations) ! (n - 2))
         then (case new_list (take (n - 2) (h ! prev_rotations)) h of (a, h1) \<Rightarrow>
               case new_list [Rotation_neg next_rotation] h1 of (b, h2) \<Rightarrow>
               new_list ((h2 ! a) @ (h2 ! b)) h2)
         else (case new_list [next_rotation] h of (b, h1) \<Rightarrow>
               new_list ((h1 ! prev_rotations) @ (h1 ! b)) h1))"

subsection \<open>The collaborators: trig_tau and Quaternion\<close>

text \<open>
  Modelled from the spec: the module \<^verbatim>\<open>trig_tau\<close> is imported by rotation.py and is not
  among the sources. The spec gives it as trigonometry on angles measured in turns, with
  \<open>tau\<close> one full turn in radians.
\<close>

definition tau :: real where
  "tau = 2 * pi"

text \<open>Modelled from the spec: \<^verbatim>\<open>trig_tau.cos(turns)\<close>, the cosine of an angle in turns.\<close>

definition trig_tau_cos :: "real \<Rightarrow> real" where
  "trig_tau_cos t = cos (t * tau)"

text \<open>Modelled from the spec: \<^verbatim>\<open>trig_tau.sin(turns)\<close>, the sine of an angle in turns.\<close>

definition trig_tau_sin :: "real \<Rightarrow> real" where
  "trig_tau_sin t = sin (t * tau)"

text \<open>
  Modelled from the spec: \<^verbatim>\<open>trig_tau.atan2(y, x)\<close>, "returning turns": the two-argument
  arctangent, with its value in \<open>(-pi, pi]\<close> divided by \<open>tau\<close>.
\<close>

definition trig_tau_atan2 :: "real \<Rightarrow> real \<Rightarrow> real" where
  "trig_tau_atan2 y x =
     (if 0 < x then arctan (y / x)
      else if x < 0 \<and> 0 \<le> y then arctan (y / x) + pi
      else if x < 0 then arctan (y / x) - pi
      else if 0 < y then pi / 2
      else if y < 0 then - pi / 2
      else 0) / tau"

text \<open>
  Modelled from the spec: \<^verbatim>\<open>trig_tau.sinc\<close>, "sinc(theta) = sin(theta)/theta (with the
  theta=0 limit defined as 1)", the sine being the one of this module. Of the value at 0 the
  proofs below use only that it is not zero.
\<close>

definition trig_tau_sinc :: "real \<Rightarrow> real" where
  "trig_tau_sinc t = (if t = 0 then 1 else trig_tau_sin t / t)"

text \<open>
  Modelled from the spec: \<^verbatim>\<open>trig_tau.expi\<close>, "expi(theta) = cos(theta)+i sin(theta) where
  theta is in turns".
\<close>

definition trig_tau_expi :: "real \<Rightarrow> complex" where
  "trig_tau_expi t = cis (t * tau)"

text \<open>
  Modelled from the spec: the class \<^verbatim>\<open>Quaternion\<close> of the module \<^verbatim>\<open>quaternion\<close>, not
  among the sources: "construction from (w,x,y,z) or scalar, multiplication (Hamilton
  product), dot product, and component access (w,x,y,z)".
\<close>

record Quaternion =
  q_w :: real
  q_x :: real
  q_y :: real
  q_z :: real

text \<open>Modelled from the spec: the constructor of \<^verbatim>\<open>Quaternion\<close>; \<^verbatim>\<open>Quaternion(1)\<close> is
  \<open>Quaternion_init 1 0 0 0\<close>.\<close>

definition Quaternion_init :: "real \<Rightarrow> real \<Rightarrow> real \<Rightarrow> real \<Rightarrow> Quaternion" where
  "Quaternion_init w x y z = \<lparr>q_w = w, q_x = x, q_y = y, q_z = z\<rparr>"

text \<open>Modelled from the spec: \<^verbatim>\<open>Quaternion.__mul__\<close>, the Hamilton product.\<close>

definition Quaternion_mul :: "Quaternion \<Rightarrow> Quaternion \<Rightarrow> Quaternion" where
  "Quaternion_mul a b = Quaternion_init
     (q_w a * q_w b - q_x a * q_x b - q_y a * q_y b - q_z a * q_z b)
     (q_w a * q_x b + q_x a * q_w b + q_y a * q_z b - q_z a * q_y b)
     (q_w a * q_y b - q_x a * q_z b + q_y a * q_w b + q_z a * q_x b)
     (q_w a * q_z b + q_x a * q_y b - q_y a * q_x b + q_z a * q_w b)"

subsection \<open>Rotations and quaternions\<close>

text \<open>
  A float division by zero raises ZeroDivisionError. In \<^verbatim>\<open>as_quaternion\<close> the divisor
  \<open>t\<close> is at least \<open>0.000001\<close>; in \<^verbatim>\<open>from_quaternion\<close> the divisor \<open>d\<close> can be zero, and
  the three divisions by it are the first thing done with it. Over the reals \<open>d\<close> is zero
  exactly when the recovered angle is a full turn (the quaternion \<open>-1\<close>), since \<open>sin pi = 0\<close>;
  the float sine of the float nearest to pi is not zero, so there the reals and the floats
  part, and the statements below that need the call to return say so.
\<close>

datatype py_error = ZeroDivisionError

definition as_quaternion :: "Rotation \<Rightarrow> Quaternion" where
  "as_quaternion self =
     (let t = turns self
      in if t < 0.000001 then Quaternion_init 1 0 0 0
         else let c = trig_tau_cos (t / 2);
                  s = trig_tau_sin (t / 2) / t
              in Quaternion_init c (s * fst (rot_v self)) (s * fst (snd (rot_v self)))
                   (s * snd (snd (rot_v self))))"

definition from_quaternion :: "Quaternion \<Rightarrow> py_error + Rotation" where
  "from_quaternion q =
     (let turns = 2 * trig_tau_atan2 (sqrt ((q_x q)\<^sup>2 + (q_y q)\<^sup>2 + (q_z q)\<^sup>2)) (q_w q);
          smoothed_turns = smooth_near_quarter_turn turns;
          d = trig_tau_sinc (smoothed_turns / 2) / 2
      in if d = 0 then Inl ZeroDivisionError
         else let x = q_x q / d; y = q_y q / d; z = q_z q / d;
                  sx = smooth_near_quarter_turn x;
                  sy = smooth_near_quarter_turn y;
                  sz = smooth_near_quarter_turn z
              in Inr (Rotation_init sx sy sz))"

text \<open>\<^verbatim>\<open>then\<close>: the name is a keyword of Isabelle, hence the prefix.\<close>

definition Rotation_then :: "Rotation \<Rightarrow> Rotation \<Rightarrow> py_error + Rotation" where
  "Rotation_then self following_rotation =
     from_quaternion (Quaternion_mul (as_quaternion following_rotation) (as_quaternion self))"

text \<open>
  A call that may raise "returns a rotation \<^verbatim>\<open>==\<close> to \<open>r\<close>": it returns, and what it
  returns is canonically equal to \<open>r\<close>.
\<close>

definition returns_eq :: "py_error + Rotation \<Rightarrow> Rotation \<Rightarrow> bool" where
  "returns_eq res r = (case res of Inl e \<Rightarrow> False | Inr r' \<Rightarrow> Rotation_eq r' r)"

subsection \<open>2x2 complex matrices\<close>

text \<open>
  The matrices of rotation.py are numpy matrices (\<^verbatim>\<open>np.mat\<close>) of shape 2x2; \<open>m00\<close>,
  \<open>m01\<close>, \<open>m10\<close>, \<open>m11\<close> are the entries \<^verbatim>\<open>m[0,0]\<close>, \<^verbatim>\<open>m[0,1]\<close>, \<^verbatim>\<open>m[1,0]\<close>,
  \<^verbatim>\<open>m[1,1]\<close>. \<open>identity\<close> is \<^verbatim>\<open>np.identity(2)\<close>; the three Pauli matrices are the
  literals of \<^verbatim>\<open>as_pauli_operation\<close>; \<open>mat_scale\<close>, \<open>mat_add\<close> and \<open>mat_mul\<close> are
  numpy's scalar multiple, sum and matrix product. A matrix is unitary when its products
  with its conjugate transpose, on both sides, are the identity.
\<close>

record mat2 =
  m00 :: complex
  m01 :: complex
  m10 :: complex
  m11 :: complex

definition mat :: "complex \<Rightarrow> complex \<Rightarrow> complex \<Rightarrow> complex \<Rightarrow> mat2" where
  "mat a b c d = \<lparr>m00 = a, m01 = b, m10 = c, m11 = d\<rparr>"

definition identity :: mat2 where
  "identity = mat 1 0 0 1"

definition pauli_X :: mat2 where
  "pauli_X = mat 0 1 1 0"

definition pauli_Y :: mat2 where
  "pauli_Y = mat 0 (- \<i>) \<i> 0"

definition pauli_Z :: mat2 where
  "pauli_Z = mat 1 0 0 (- 1)"

definition mat_add :: "mat2 \<Rightarrow> mat2 \<Rightarrow> mat2" where
  "mat_add m n = mat (m00 m + m00 n) (m01 m + m01 n) (m10 m + m10 n) (m11 m + m11 n)"

definition mat_scale :: "complex \<Rightarrow> mat2 \<Rightarrow> mat2" where
  "mat_scale k m = mat (k * m00 m) (k * m01 m) (k * m10 m) (k * m11 m)"

definition mat_mul :: "mat2 \<Rightarrow> mat2 \<Rightarrow> mat2" where
  "mat_mul m n = mat (m00 m * m00 n + m01 m * m10 n) (m00 m * m01 n + m01 m * m11 n)
                     (m10 m * m00 n + m11 m * m10 n) (m10 m * m01 n + m11 m * m11 n)"

definition dagger :: "mat2 \<Rightarrow> mat2" where
  "dagger m = mat (cnj (m00 m)) (cnj (m10 m)) (cnj (m01 m)) (cnj (m11 m))"

definition unitary :: "mat2 \<Rightarrow> bool" where
  "unitary m \<longleftrightarrow> mat_mul m (dagger m) = identity \<and> mat_mul (dagger m) m = identity"

subsection \<open>unitary_breakdown\<close>

text \<open>
  \<^verbatim>\<open>max(xs, key=f)\<close> of Python returns the first element whose key is maximal: the
  running best is replaced only by an element with a strictly greater key.
\<close>

fun py_max_key :: "('a \<Rightarrow> real) \<Rightarrow> 'a \<Rightarrow> 'a list \<Rightarrow> 'a" where
  "py_max_key key best [] = best"
| "py_max_key key best (e # es) = py_max_key key (if key e > key best then e else best) es"

text \<open>
  The first half of \<^verbatim>\<open>unitary_breakdown\<close> ("Extract components"): the list
  \<^verbatim>\<open>[t, x, y, z]\<close> that is passed to \<^verbatim>\<open>max\<close>.
\<close>

definition pauli_components :: "mat2 \<Rightarrow> complex list" where
  "pauli_components m =
     (let a = m00 m; b = m01 m; c = m10 m; d = m11 m;
          t = (a + d) / (2 * \<i>);
          x = (b + c) / 2;
          y = (b - c) / (- (2 * \<i>));
          z = (a - d) / 2
      in [t, x, y, z])"

text \<open>
  The entries are numpy scalars, so \<^verbatim>\<open>p /= abs(p)\<close> with \<open>p = 0\<close> does not raise: it
  gives NaN. That happens only for the zero matrix, which is not unitary; the value of the
  model there (HOL's \<open>0 / 0 = 0\<close>) is not used below.
\<close>

definition unitary_breakdown :: "mat2 \<Rightarrow> real \<times> real \<times> real \<times> real \<times> complex" where
  "unitary_breakdown m =
     (case pauli_components m of [t, x, y, z] \<Rightarrow>
      let p = py_max_key cmod t [x, y, z];
          p = p / of_real (cmod p);
          pt = t / p; px = x / p; py = y / p; pz = z / p
      in (Re pt, Re px, Re py, Re pz, p))"

subsection \<open>as_pauli_operation\<close>

text \<open>
  \<^verbatim>\<open>math.copysign(a, w)\<close>: the magnitude of \<open>a\<close> with the sign of \<open>w\<close>. The reals have
  no negative zero, so \<open>w = 0\<close> counts as positive, as the float \<open>0.0\<close> does.
\<close>

definition py_copysign :: "real \<Rightarrow> real \<Rightarrow> real" where
  "py_copysign a w = (if 0 \<le> w then \<bar>a\<bar> else - \<bar>a\<bar>)"

text \<open>
  \<^verbatim>\<open>np.identity(2) * ci + s * v * cv\<close> is evaluated left to right: \<open>s * v\<close> first, the
  result times \<open>cv\<close>, each a scalar multiple of a matrix; the final \<^verbatim>\<open>/2\<close> is the scalar
  multiple by \<open>1/2\<close>. The division by \<open>theta\<close> is only reached with \<open>theta \<ge> 0.001\<close>.
\<close>

definition as_pauli_operation :: "Rotation \<Rightarrow> mat2" where
  "as_pauli_operation self =
     (case rot_v self of (x, y, z) \<Rightarrow>
      let s = py_copysign 1 (11 * x + 13 * y + 17 * z);
          theta = sqrt (x\<^sup>2 + y\<^sup>2 + z\<^sup>2);
          v = mat_add (mat_add (mat_scale (of_real x) pauli_X) (mat_scale (of_real y) pauli_Y))
                (mat_scale (of_real z) pauli_Z);
          ci = 1 + trig_tau_expi (s * theta);
          cv = (if theta < 0.001
                then of_real (trig_tau_sin (theta / 2) * trig_tau_sinc (theta / 2))
                       - \<i> * of_real s * of_real (trig_tau_sinc theta)
                else (1 - trig_tau_expi (s * theta)) / of_real theta)
      in mat_scale (1 / 2) (mat_add (mat_scale ci identity) (mat_scale cv (mat_scale (of_real s) v))))"

subsection \<open>unitary_lerp\<close>






subsection \<open>Notions used in the statements\<close>

text \<open>
  The matrix \<open>w*I - i*(x*X + y*Y + z*Z)\<close> of a quaternion, its squared norm, and the
  condition that \<^verbatim>\<open>smooth_near_quarter_turn\<close> changes none of the four values it is
  applied to inside \<^verbatim>\<open>from_quaternion\<close>.
\<close>

definition quaternion_matrix :: "Quaternion \<Rightarrow> mat2" where
  "quaternion_matrix q = mat (Complex (q_w q) (- q_z q)) (Complex (- q_y q) (- q_x q))
                             (Complex (q_y q) (- q_x q)) (Complex (q_w q) (q_z q))"

definition qnorm2 :: "Quaternion \<Rightarrow> real" where
  "qnorm2 q = (q_w q)\<^sup>2 + (q_x q)\<^sup>2 + (q_y q)\<^sup>2 + (q_z q)\<^sup>2"

definition smoothing_inactive :: "Quaternion \<Rightarrow> bool" where
  "smoothing_inactive q =
     (let turns = 2 * trig_tau_atan2 (sqrt ((q_x q)\<^sup>2 + (q_y q)\<^sup>2 + (q_z q)\<^sup>2)) (q_w q);
          d = trig_tau_sinc (turns / 2) / 2
      in smooth_near_quarter_turn turns = turns
         \<and> smooth_near_quarter_turn (q_x q / d) = q_x q / d
         \<and> smooth_near_quarter_turn (q_y q / d) = q_y q / d
         \<and> smooth_near_quarter_turn (q_z q / d) = q_z q / d)"

section \<open>Properties\<close>

subsection \<open>Negation\<close>

text \<open>
  C10. Negation is a componentwise involution that preserves the magnitude: for every
  Rotation \<open>r\<close> (built by the constructor from \<open>x\<close>, \<open>y\<close>, \<open>z\<close>), \<open>-r\<close> has the components
  \<open>(-x, -y, -z)\<close>, \<open>-(-r)\<close> has the raw components of \<open>r\<close>, and \<open>(-r).turns()\<close> equals
  \<open>r.turns()\<close>.
\<close>

theorem neg_involution_preserves_turns:
  "rot_x (Rotation_neg (Rotation_init x y z)) = - x
   \<and> rot_y (Rotation_neg (Rotation_init x y z)) = - y
   \<and> rot_z (Rotation_neg (Rotation_init x y z)) = - z
   \<and> rot_v (Rotation_neg (Rotation_init x y z)) = (- x, - y, - z)
   \<and> Rotation_neg (Rotation_neg (Rotation_init x y z)) = Rotation_init x y z
   \<and> turns (Rotation_neg (Rotation_init x y z)) = turns (Rotation_init x y z)"
  by (simp add: Rotation_neg_def Rotation_init_def turns_def)

subsection \<open>Concrete canonical forms\<close>

lemma canonical_x_quarter: "canonical (Rotation_init (1/4) 0 0) = (1/4, 1, 0, 0)"
  by (simp add: canonical_def axis_def turns_def Rotation_init_def pymod_def Let_def)

lemma canonical_x_minus_quarter: "canonical (Rotation_init (- (1/4)) 0 0) = (- (1/4), 1, 0, 0)"
  by (simp add: canonical_def axis_def turns_def Rotation_init_def pymod_def Let_def)

lemma canonical_z_quarter: "canonical (Rotation_init 0 0 (1/4)) = (1/4, 0, 0, 1)"
  by (simp add: canonical_def axis_def turns_def Rotation_init_def pymod_def Let_def)

lemma canonical_z_minus_quarter: "canonical (Rotation_init 0 0 (- (1/4))) = (- (1/4), 0, 0, 1)"
  by (simp add: canonical_def axis_def turns_def Rotation_init_def pymod_def Let_def)

lemma turns_z_quarter: "turns (Rotation_init 0 0 (1/4)) = 1/4"
  by (simp add: turns_def Rotation_init_def)

subsection \<open>The sequence simplifier\<close>

text \<open>
  C5. plus_rotation_simplified applies exactly one of three rules: if \<open>prev\<close> is non-empty
  and \<open>next\<close> is canonically equal to the negation of the last element of \<open>prev\<close>, the result
  is \<open>prev\<close> without its last element; else if \<open>prev\<close> has at least two elements,
  \<open>next.turns()\<close> is exactly 0.25, and \<open>next\<close>, the last and the second-to-last element of
  \<open>prev\<close> are all canonically equal, the result is \<open>prev\<close> with its last two elements
  replaced by the single element \<open>-next\<close>; otherwise the result is \<open>prev\<close> with \<open>next\<close>
  appended.
\<close>

theorem plus_rotation_simplified_rules:
  "plus_rotation_simplified prev nx =
     (if prev \<noteq> [] \<and> Rotation_eq nx (Rotation_neg (last prev)) then butlast prev
      else if 2 \<le> length prev \<and> turns nx = 0.25
              \<and> Rotation_eq nx (last prev) \<and> Rotation_eq nx (last (butlast prev))
              \<and> Rotation_eq (last prev) (last (butlast prev))
      then butlast (butlast prev) @ [Rotation_neg nx]
      else prev @ [nx])"
proof (cases prev rule: rev_cases)
  case Nil
  then show ?thesis by (simp add: plus_rotation_simplified_def)
next
  case (snoc ys l1)
  show ?thesis
  proof (cases ys rule: rev_cases)
    case Nil
    with snoc show ?thesis by (simp add: plus_rotation_simplified_def Let_def)
  next
    case (snoc zs l2)
    with \<open>prev = ys @ [l1]\<close> show ?thesis
      by (auto simp add: plus_rotation_simplified_def Let_def nth_append Rotation_eq_def
          butlast_append)
  qed
qed

theorem plus_rotation_simplified_rules_witness:
  "plus_rotation_simplified [Rotation_init (1/4) 0 0] (Rotation_init (- (1/4)) 0 0) = []
   \<and> plus_rotation_simplified [Rotation_init 0 0 (1/4), Rotation_init 0 0 (1/4)]
        (Rotation_init 0 0 (1/4)) = [Rotation_init 0 0 (- (1/4))]
   \<and> plus_rotation_simplified [Rotation_init (1/4) 0 0] (Rotation_init 0 0 (1/4))
        = [Rotation_init (1/4) 0 0, Rotation_init 0 0 (1/4)]"
proof -
  have nx: "Rotation_neg (Rotation_init (1/4) 0 0) = Rotation_init (- (1/4)) 0 0"
    and nz: "Rotation_neg (Rotation_init 0 0 (1/4)) = Rotation_init 0 0 (- (1/4))"
    by (simp_all add: Rotation_neg_def Rotation_init_def)
  have e1: "Rotation_eq (Rotation_init (- (1/4)) 0 0) (Rotation_init (- (1/4)) 0 0)"
    and e2: "\<not> Rotation_eq (Rotation_init 0 0 (1/4)) (Rotation_init 0 0 (- (1/4)))"
    and e3: "Rotation_eq (Rotation_init 0 0 (1/4)) (Rotation_init 0 0 (1/4))"
    and e4: "\<not> Rotation_eq (Rotation_init 0 0 (1/4)) (Rotation_init (- (1/4)) 0 0)"
    by (simp_all add: Rotation_eq_def canonical_x_minus_quarter canonical_z_quarter
        canonical_z_minus_quarter)
  have t: "turns (Rotation_init 0 0 (1/4)) = 0.25"
    by (simp add: turns_z_quarter)
  have "plus_rotation_simplified [Rotation_init (1/4) 0 0] (Rotation_init (- (1/4)) 0 0) = []"
    using plus_rotation_simplified_rules [of "[Rotation_init (1/4) 0 0]" "Rotation_init (- (1/4)) 0 0"]
    by (simp add: nx e1)
  moreover have "plus_rotation_simplified [Rotation_init 0 0 (1/4), Rotation_init 0 0 (1/4)]
        (Rotation_init 0 0 (1/4)) = [Rotation_init 0 0 (- (1/4))]"
    using plus_rotation_simplified_rules [of "[Rotation_init 0 0 (1/4), Rotation_init 0 0 (1/4)]"
      "Rotation_init 0 0 (1/4)"]
    by (simp add: nz e2 e3 t)
  moreover have "plus_rotation_simplified [Rotation_init (1/4) 0 0] (Rotation_init 0 0 (1/4))
        = [Rotation_init (1/4) 0 0, Rotation_init 0 0 (1/4)]"
    using plus_rotation_simplified_rules [of "[Rotation_init (1/4) 0 0]" "Rotation_init 0 0 (1/4)"]
    by (simp add: nx e4)
  ultimately show ?thesis by simp
qed

lemma plus_rotation_simplified_store_value:
  assumes "p < length h" and "plus_rotation_simplified_store h p nx = (a, h')"
  shows "h' ! a = plus_rotation_simplified (h ! p) nx"
    and "length h \<le> a" and "a < length h'" and "take (length h) h' = h"
  using assms
  by (auto simp: plus_rotation_simplified_store_def plus_rotation_simplified_def new_list_def
      Let_def nth_append split: if_splits)

lemma plus_rotation_simplified_length:
  "length (plus_rotation_simplified prev nx) + 1 = length prev
   \<or> length (plus_rotation_simplified prev nx) = length prev + 1"
  by (auto simp: plus_rotation_simplified_def Let_def)

lemma plus_rotation_simplified_prefix:
  "take (length prev - 2) (plus_rotation_simplified prev nx) = take (length prev - 2) prev"
  by (auto simp: plus_rotation_simplified_def Let_def)

text \<open>
  C8. Frame property of plus_rotation_simplified: for every list \<open>prev\<close> (the object at
  address \<open>p\<close> of the store) and rotation \<open>next\<close>, the first \<open>max(len(prev) - 2, 0)\<close>
  elements of the returned list are the corresponding elements of \<open>prev\<close>, the length of the
  returned list is \<open>len(prev) - 1\<close> or \<open>len(prev) + 1\<close>, and \<open>prev\<close> is not mutated: the
  returned list is a new object and every list that existed before the call, \<open>prev\<close> among
  them, has its old contents.
\<close>

theorem plus_rotation_simplified_frame:
  assumes "p < length h" and "plus_rotation_simplified_store h p nx = (a, h')"
  shows "take (length (h ! p) - 2) (h' ! a) = take (length (h ! p) - 2) (h ! p)
         \<and> (length (h' ! a) + 1 = length (h ! p) \<or> length (h' ! a) = length (h ! p) + 1)
         \<and> h' ! p = h ! p \<and> a \<noteq> p \<and> take (length h) h' = h"
proof -
  note v = plus_rotation_simplified_store_value [OF assms]
  have "h' ! p = take (length h) h' ! p"
    using assms(1) by simp
  then have "h' ! p = h ! p"
    by (simp add: v(4))
  moreover have "a \<noteq> p"
    using assms(1) v(2) by simp
  ultimately show ?thesis
    using v(1) v(4) plus_rotation_simplified_length [of "h ! p" nx]
      plus_rotation_simplified_prefix [of "h ! p" nx]
    by simp
qed

theorem plus_rotation_simplified_frame_witness:
  "(0::nat) < length [[Rotation_init 0 0 (1/4), Rotation_init 0 0 (1/4)]]
   \<and> plus_rotation_simplified_store [[Rotation_init 0 0 (1/4), Rotation_init 0 0 (1/4)]] 0
        (Rotation_init 0 0 (1/4))
      = (3, [[Rotation_init 0 0 (1/4), Rotation_init 0 0 (1/4)], [],
             [Rotation_init 0 0 (- (1/4))], [Rotation_init 0 0 (- (1/4))]])
   \<and> [[Rotation_init 0 0 (1/4), Rotation_init 0 0 (1/4)], [],
             [Rotation_init 0 0 (- (1/4))], [Rotation_init 0 0 (- (1/4))]] ! 0
      = [[Rotation_init 0 0 (1/4), Rotation_init 0 0 (1/4)]] ! 0
   \<and> (3::nat) \<noteq> 0"
proof -
  have nz: "Rotation_neg (Rotation_init 0 0 (1/4)) = Rotation_init 0 0 (- (1/4))"
    by (simp add: Rotation_neg_def Rotation_init_def)
  have e2: "\<not> Rotation_eq (Rotation_init 0 0 (1/4)) (Rotation_init 0 0 (- (1/4)))"
    and e3: "Rotation_eq (Rotation_init 0 0 (1/4)) (Rotation_init 0 0 (1/4))"
    by (simp_all add: Rotation_eq_def canonical_z_quarter canonical_z_minus_quarter)
  have t: "turns (Rotation_init 0 0 (1/4)) = 0.25"
    by (simp add: turns_z_quarter)
  have c: "plus_rotation_simplified_store [[Rotation_init 0 0 (1/4), Rotation_init 0 0 (1/4)]] 0
        (Rotation_init 0 0 (1/4))
      = (3, [[Rotation_init 0 0 (1/4), Rotation_init 0 0 (1/4)], [],
             [Rotation_init 0 0 (- (1/4))], [Rotation_init 0 0 (- (1/4))]])"
    by (simp add: plus_rotation_simplified_store_def new_list_def nz e2 e3 t)
  have l: "(0::nat) < length [[Rotation_init 0 0 (1/4), Rotation_init 0 0 (1/4)]]"
    by simp
  show ?thesis
    using plus_rotation_simplified_frame [OF l c] c by simp
qed

subsection \<open>The canonical form\<close>

lemma pymod_one_range: "0 \<le> pymod t 1 \<and> pymod t 1 < 1"
  by (simp add: pymod_def) linarith

text \<open>
  C6, as stated: the canonical form is the exact tuple \<open>(0,0,0,0)\<close>, or its turn component
  lies in the half-open interval \<open>(-0.5, 0.5]\<close>. It fails at the half turn about the x axis,
  which \<^verbatim>\<open>if t >= 0.5: t -= 1\<close> sends to \<open>-0.5\<close>.
\<close>

theorem canonical_range_counterexample:
  "canonical (Rotation_init 0.5 0 0) = (- 0.5, 1, 0, 0)
   \<and> \<not> (canonical (Rotation_init 0.5 0 0) = (0, 0, 0, 0)
          \<or> (- 0.5 < fst (canonical (Rotation_init 0.5 0 0))
              \<and> fst (canonical (Rotation_init 0.5 0 0)) \<le> 0.5))"
  by (simp add: canonical_def axis_def turns_def Rotation_init_def pymod_def Let_def)

lemma pymod_one_zero_iff: "pymod t 1 = 0 \<longleftrightarrow> t \<in> \<int>"
proof
  assume "pymod t 1 = 0"
  then have "t = of_int \<lfloor>t\<rfloor>" by (simp add: pymod_def)
  then show "t \<in> \<int>" by (metis Ints_of_int)
next
  assume "t \<in> \<int>"
  then show "pymod t 1 = 0" by (auto simp: pymod_def elim: Ints_cases)
qed

lemma pymod_one_minus: "pymod (- t) 1 = 0 \<longleftrightarrow> pymod t 1 = 0"
  by (simp add: pymod_one_zero_iff)

text \<open>
  C6, amended: for every Rotation the canonical form is the exact tuple \<open>(0,0,0,0)\<close>
  exactly when the reduced turn is 0 (\<open>turns()\<close> modulo 1 is 0; the sign flip does not
  change that), and otherwise it is a tuple whose turn component is not zero and lies in the
  half-open interval \<open>[-0.5, 0.5)\<close>.
\<close>

theorem canonical_range:
  "(canonical r = (0, 0, 0, 0) \<longleftrightarrow> pymod (turns r) 1 = 0)
   \<and> (canonical r = (0, 0, 0, 0)
      \<or> (- 0.5 \<le> fst (canonical r) \<and> fst (canonical r) < 0.5 \<and> fst (canonical r) \<noteq> 0))"
proof -
  obtain x y z where a: "axis r = (x, y, z)"
    by (cases "axis r") auto
  have "0 \<le> pymod (turns r) 1 \<and> pymod (turns r) 1 < 1"
    and "0 \<le> pymod (- turns r) 1 \<and> pymod (- turns r) 1 < 1"
    by (rule pymod_one_range)+
  then show ?thesis
    using pymod_one_minus [of "turns r"]
    by (auto simp: canonical_def a Let_def)
qed

theorem canonical_range_witness:
  "pymod (turns (Rotation_init 1 0 0)) 1 = 0 \<and> canonical (Rotation_init 1 0 0) = (0, 0, 0, 0)
   \<and> pymod (turns (Rotation_init (1/4) 0 0)) 1 \<noteq> 0
   \<and> canonical (Rotation_init (1/4) 0 0) \<noteq> (0, 0, 0, 0)
   \<and> - 0.5 \<le> fst (canonical (Rotation_init (1/4) 0 0))
   \<and> fst (canonical (Rotation_init (1/4) 0 0)) < 0.5"
proof -
  have "pymod (turns (Rotation_init 1 0 0)) 1 = 0"
    by (simp add: turns_def Rotation_init_def pymod_def)
  moreover have "pymod (turns (Rotation_init (1/4) 0 0)) 1 \<noteq> 0"
    by (simp add: turns_def Rotation_init_def pymod_def)
  ultimately show ?thesis
    using canonical_range [of "Rotation_init 1 0 0"] canonical_range [of "Rotation_init (1/4) 0 0"]
    by auto
qed

subsection \<open>Smoothing\<close>

lemma py_round_of_int: "py_round (of_int m) = of_int m"
proof -
  have "\<lfloor>of_int m + (1/2::real)\<rfloor> = m" by linarith
  moreover have "\<lfloor>- of_int m + (1/2::real)\<rfloor> = - m" by linarith
  ultimately show ?thesis by (simp add: py_round_def)
qed

lemma py_round_is_int: "\<exists>m::int. py_round a = of_int m"
  by (metis py_round_def of_int_minus)

lemma pymod_quarter_multiple: "pymod (of_int m / 4 - 0.125) 0.25 = 0.125"
proof -
  have "(of_int m / 4 - 0.125) / (0.25::real) = of_int m - 1/2"
    by (simp add: field_simps)
  moreover have "\<lfloor>of_int m - (1/2::real)\<rfloor> = m - 1" by linarith
  ultimately have "\<lfloor>(of_int m / 4 - 0.125) / (0.25::real)\<rfloor> = m - 1" by simp
  then show ?thesis unfolding pymod_def by (simp add: field_simps)
qed

lemma smooth_multiple: "smooth_near_quarter_turn (of_int m / 4) = of_int m / 4"
  by (simp add: smooth_near_quarter_turn_def pymod_quarter_multiple py_round_of_int)

lemma smooth_cases:
  "smooth_near_quarter_turn v = v \<or> (\<exists>m::int. smooth_near_quarter_turn v = of_int m / 4)"
  using py_round_is_int [of "v * 4"]
  by (auto simp: smooth_near_quarter_turn_def Let_def)

text \<open>Two doctests of the function: a value that is snapped and one that is left alone.\<close>

lemma smooth_doctest_snapped: "smooth_near_quarter_turn 0.250000000001 = 0.25"
  by (simp add: smooth_near_quarter_turn_def pymod_def py_round_def Let_def)

lemma smooth_doctest_unchanged: "smooth_near_quarter_turn 0.223434325454 = 0.223434325454"
  by (simp add: smooth_near_quarter_turn_def pymod_def py_round_def Let_def)

text \<open>
  C9. Idempotence of smooth_near_quarter_turn: for every real number \<open>v\<close>, smoothing the
  smoothed value gives the smoothed value again; in particular every exact multiple
  \<open>k * 0.25\<close> (\<open>k\<close> an integer) is a fixed point.
\<close>

theorem smooth_near_quarter_turn_idempotent:
  "smooth_near_quarter_turn (smooth_near_quarter_turn v) = smooth_near_quarter_turn v
   \<and> smooth_near_quarter_turn (of_int k * 0.25) = of_int k * 0.25"
proof -
  have "smooth_near_quarter_turn (of_int k * 0.25) = of_int k * 0.25"
    using smooth_multiple [of k] by simp
  moreover
  have "smooth_near_quarter_turn (smooth_near_quarter_turn v) = smooth_near_quarter_turn v"
  proof -
    from smooth_cases [of v] show ?thesis
    proof
      assume "smooth_near_quarter_turn v = v"
      then show ?thesis by simp
    next
      assume "\<exists>m::int. smooth_near_quarter_turn v = of_int m / 4"
      then obtain m :: int where m: "smooth_near_quarter_turn v = of_int m / 4" ..
      show ?thesis unfolding m by (rule smooth_multiple)
    qed
  qed
  ultimately show ?thesis by simp
qed

subsection \<open>Rotations and quaternions\<close>

lemma smooth_zero: "smooth_near_quarter_turn 0 = 0"
  using smooth_multiple [of 0] by simp

lemma from_quaternion_one: "from_quaternion (Quaternion_init 1 0 0 0) = Inr (Rotation_init 0 0 0)"
  by (simp add: from_quaternion_def Quaternion_init_def trig_tau_atan2_def smooth_zero
      trig_tau_sinc_def)

lemma turns_neg: "turns (Rotation_neg r) = turns r"
  by (simp add: Rotation_neg_def Rotation_init_def turns_def)

lemma turns_init: "turns (Rotation_init x y z) = sqrt (x\<^sup>2 + y\<^sup>2 + z\<^sup>2)"
  by (simp add: Rotation_init_def turns_def)

lemma mul_conj:
  assumes "\<not> turns (Rotation_init x y z) < 0.000001"
  shows "Quaternion_mul (as_quaternion (Rotation_neg (Rotation_init x y z)))
           (as_quaternion (Rotation_init x y z)) = Quaternion_init 1 0 0 0"
proof -
  define t where "t = turns (Rotation_init x y z)"
  have t2: "t\<^sup>2 = x\<^sup>2 + y\<^sup>2 + z\<^sup>2"
    by (simp add: t_def turns_init)
  have t0: "t \<noteq> 0" using assms by (auto simp: t_def)
  define c where "c = trig_tau_cos (t / 2)"
  define s where "s = trig_tau_sin (t / 2) / t"
  have st: "(s * t)\<^sup>2 + c\<^sup>2 = 1"
    using t0 by (simp add: s_def c_def trig_tau_sin_def trig_tau_cos_def)
  have a1: "as_quaternion (Rotation_init x y z) = Quaternion_init c (s * x) (s * y) (s * z)"
    using assms by (simp add: as_quaternion_def t_def c_def s_def Let_def) (simp add: Rotation_init_def)
  have a2: "as_quaternion (Rotation_neg (Rotation_init x y z))
      = Quaternion_init c (s * - x) (s * - y) (s * - z)"
    using assms by (simp add: as_quaternion_def turns_neg t_def c_def s_def Let_def)
      (simp add: Rotation_init_def Rotation_neg_def)
  have "c * c + s * x * (s * x) + s * y * (s * y) + s * z * (s * z) = (s * t)\<^sup>2 + c\<^sup>2"
    by (simp add: power2_eq_square t2 [unfolded power2_eq_square] algebra_simps)
  then show ?thesis
    unfolding a1 a2 using st by (simp add: Quaternion_mul_def Quaternion_init_def)
qed

lemma then_neg_value:
  "Rotation_then (Rotation_init x y z) (Rotation_neg (Rotation_init x y z)) = Inr (Rotation_init 0 0 0)"
proof (cases "turns (Rotation_init x y z) < 0.000001")
  case True
  then have "as_quaternion (Rotation_init x y z) = Quaternion_init 1 0 0 0"
    and "as_quaternion (Rotation_neg (Rotation_init x y z)) = Quaternion_init 1 0 0 0"
    by (simp_all add: as_quaternion_def turns_neg)
  then show ?thesis
    by (simp add: Rotation_then_def from_quaternion_one [symmetric])
      (simp add: Quaternion_mul_def Quaternion_init_def)
next
  case False
  then show ?thesis
    by (simp add: Rotation_then_def mul_conj from_quaternion_one)
qed

text \<open>
  C7. Inverse law: for every Rotation \<open>r\<close> (built by the constructor from \<open>x\<close>, \<open>y\<close>, \<open>z\<close>),
  \<^verbatim>\<open>r.then(-r)\<close> returns, and returns a rotation equal under canonical equality to
  \<^verbatim>\<open>Rotation()\<close>, the no-rotation value; it is the no-rotation value itself.
\<close>

theorem then_neg_is_no_rotation:
  "Rotation_then (Rotation_init x y z) (Rotation_neg (Rotation_init x y z)) = Inr (Rotation_init 0 0 0)
   \<and> returns_eq (Rotation_then (Rotation_init x y z) (Rotation_neg (Rotation_init x y z)))
        (Rotation_init 0 0 0)"
  by (simp add: then_neg_value returns_eq_def Rotation_eq_def)

lemma cos_pos_lt_half_pi:
  assumes "0 \<le> a" "a \<le> pi" "0 < cos a"
  shows "a < pi / 2"
  by (metis antisym_conv3 assms(2,3) cos_monotone_0_pi cos_pi_half order.asym pi_half_ge_zero)

lemma cos_zero_half_pi:
  assumes "0 \<le> a" "a \<le> pi" "cos a = 0"
  shows "a = pi / 2"
  by (metis arccos_0 arccos_cos assms(1,2,3))

lemma cos_neg_gt_half_pi:
  assumes "0 \<le> a" "a \<le> pi" "cos a < 0"
  shows "pi / 2 < a"
  by (metis antisym_conv3 arccos_1 assms(1,3) cos_arccos cos_gt_zero
    cos_le_one cos_pi cos_pi_half less_eq_real_def order.asym)

lemma atan2_polar:
  assumes "0 \<le> a" "a \<le> pi"
  shows "trig_tau_atan2 (sin a) (cos a) = a / tau"
proof -
  consider "0 < cos a" | "cos a = 0" | "cos a < 0" by linarith
  then show ?thesis
  proof cases
    case 1
    have "a < pi / 2"
      using assms 1 by (rule cos_pos_lt_half_pi)
    then have "arctan (tan a) = a"
      using assms(1) pi_gt_zero by (intro arctan_tan) linarith+
    then show ?thesis using 1 by (simp add: trig_tau_atan2_def tan_def)
  next
    case 2
    have "a = pi / 2"
      using assms 2 by (rule cos_zero_half_pi)
    then show ?thesis unfolding \<open>a = pi / 2\<close> by (simp add: trig_tau_atan2_def)
  next
    case 3
    have h: "pi / 2 < a"
      using assms 3 by (rule cos_neg_gt_half_pi)
    have "arctan (tan (a - pi)) = a - pi"
      using h assms(2) by (intro arctan_tan) linarith+
    moreover have "tan (a - pi) = tan a"
      using tan_periodic_pi [of "a - pi"] by simp
    ultimately have "arctan (sin a / cos a) = a - pi"
      by (simp add: tan_def)
    moreover have "0 \<le> sin a"
      using assms by (rule sin_ge_zero)
    ultimately show ?thesis using 3 by (simp add: trig_tau_atan2_def)
  qed
qed

lemma as_quaternion_main:
  assumes "\<not> turns (Rotation_init x y z) < 0.000001"
  shows "as_quaternion (Rotation_init x y z) =
     Quaternion_init (cos (pi * turns (Rotation_init x y z)))
       (sin (pi * turns (Rotation_init x y z)) / turns (Rotation_init x y z) * x)
       (sin (pi * turns (Rotation_init x y z)) / turns (Rotation_init x y z) * y)
       (sin (pi * turns (Rotation_init x y z)) / turns (Rotation_init x y z) * z)"
  using assms
  by (simp add: as_quaternion_def Let_def trig_tau_cos_def trig_tau_sin_def tau_def)
    (simp add: Rotation_init_def mult.commute)

lemma imag_norm:
  assumes "t = sqrt (x\<^sup>2 + y\<^sup>2 + z\<^sup>2)" "t \<noteq> 0" "0 \<le> k"
  shows "sqrt ((k / t * x)\<^sup>2 + (k / t * y)\<^sup>2 + (k / t * z)\<^sup>2) = k"
proof -
  have t2: "t\<^sup>2 = x\<^sup>2 + y\<^sup>2 + z\<^sup>2"
    using assms(1) by simp
  have "(k / t * x)\<^sup>2 + (k / t * y)\<^sup>2 + (k / t * z)\<^sup>2 = (k / t)\<^sup>2 * t\<^sup>2"
    unfolding t2 power_mult_distrib by (simp only: distrib_left)
  also have "\<dots> = k\<^sup>2"
    using assms(2) by (simp add: power_divide)
  finally show ?thesis using assms(3) by simp
qed

lemma from_quaternion_eval:
  assumes "2 * trig_tau_atan2 (sqrt (qx\<^sup>2 + qy\<^sup>2 + qz\<^sup>2)) qw = T"
    and "smooth_near_quarter_turn T = T'"
    and "trig_tau_sinc (T' / 2) / 2 = d"
    and "d \<noteq> 0"
  shows "from_quaternion (Quaternion_init qw qx qy qz) =
     Inr (Rotation_init (smooth_near_quarter_turn (qx / d)) (smooth_near_quarter_turn (qy / d))
            (smooth_near_quarter_turn (qz / d)))"
proof -
  have "q_w (Quaternion_init qw qx qy qz) = qw" "q_x (Quaternion_init qw qx qy qz) = qx"
    "q_y (Quaternion_init qw qx qy qz) = qy" "q_z (Quaternion_init qw qx qy qz) = qz"
    by (simp_all add: Quaternion_init_def)
  then show ?thesis
    unfolding from_quaternion_def by (simp only: assms Let_def if_False)
qed

lemma from_as_quaternion:
  assumes lo: "0.000001 \<le> turns (Rotation_init x y z)"
    and hi: "turns (Rotation_init x y z) < 1"
    and sm: "smooth_near_quarter_turn (turns (Rotation_init x y z)) = turns (Rotation_init x y z)"
  shows "from_quaternion (as_quaternion (Rotation_init x y z)) =
     Inr (Rotation_init (smooth_near_quarter_turn x) (smooth_near_quarter_turn y)
            (smooth_near_quarter_turn z))"
proof -
  define t where "t = turns (Rotation_init x y z)"
  have t: "t = sqrt (x\<^sup>2 + y\<^sup>2 + z\<^sup>2)" by (simp add: t_def turns_init)
  have t0: "0 < t" "t \<noteq> 0" "\<not> t < 0.000001" using lo by (simp_all add: t_def)
  have a: "0 \<le> pi * t" "pi * t \<le> pi" using t0 hi by (simp_all add: t_def)
  have a': "0 < pi * t" "pi * t < pi" using t0 hi by (simp_all add: t_def)
  have sp: "0 < sin (pi * t)" using a' by (rule sin_gt_zero)
  define s where "s = sin (pi * t) / t"
  have q: "as_quaternion (Rotation_init x y z) = Quaternion_init (cos (pi * t)) (s * x) (s * y) (s * z)"
    unfolding t_def s_def using t0(3) [unfolded t_def] by (rule as_quaternion_main)
  have n: "sqrt ((s * x)\<^sup>2 + (s * y)\<^sup>2 + (s * z)\<^sup>2) = sin (pi * t)"
    unfolding s_def using t t0(2) sp by (intro imag_norm) simp_all
  have tr: "2 * trig_tau_atan2 (sqrt ((s * x)\<^sup>2 + (s * y)\<^sup>2 + (s * z)\<^sup>2)) (cos (pi * t)) = t"
    unfolding n using atan2_polar [OF a] by (simp add: tau_def)
  have d: "trig_tau_sinc (t / 2) / 2 = s"
    using t0 by (simp add: s_def trig_tau_sinc_def trig_tau_sin_def tau_def mult.commute)
  have d0: "s \<noteq> 0" using sp t0 by (simp add: s_def)
  have c: "s * w / s = w" for w
    using d0 by simp
  show ?thesis
    unfolding q using from_quaternion_eval [OF tr sm [folded t_def] d d0]
    by (simp only: c)
qed

lemma canonical_zero: "canonical (Rotation_init 0 0 0) = (0, 0, 0, 0)"
  by (simp add: canonical_def axis_def turns_def Rotation_init_def pymod_def Let_def)

lemma smooth_half: "smooth_near_quarter_turn (1/2) = 1/2"
  using smooth_multiple [of 2] by simp

lemma smooth_3_10: "smooth_near_quarter_turn (3/10) = 3/10"
  by (simp add: smooth_near_quarter_turn_def pymod_def py_round_def Let_def)

lemma smooth_2_5: "smooth_near_quarter_turn (2/5) = 2/5"
  by (simp add: smooth_near_quarter_turn_def pymod_def py_round_def Let_def)

lemma turns_3_4: "turns (Rotation_init (3/10) (2/5) 0) = 1/2"
proof -
  have "(3/10)\<^sup>2 + (2/5)\<^sup>2 + 0\<^sup>2 = ((1/2)\<^sup>2 :: real)"
    by (simp add: power2_eq_square)
  then show ?thesis unfolding turns_init by (simp only: real_sqrt_abs)
qed

lemma smooth_snap:
  assumes "\<bar>v - of_int m / 4\<bar> < 0.000001"
  shows "smooth_near_quarter_turn v = of_int m / 4"
proof -
  define e where "e = v - of_int m / 4"
  have e: "\<bar>e\<bar> < 0.000001" using assms by (simp add: e_def)
  have v: "v = of_int m / 4 + e" by (simp add: e_def)
  have "(v - 0.125) / 0.25 = of_int (m - 1) + (1/2 + 4 * e)"
    by (simp add: v field_simps)
  moreover have "\<lfloor>of_int (m - 1) + (1/2 + 4 * e)\<rfloor> = m - 1"
    using e by (intro floor_unique) (simp_all add: abs_less_iff)
  ultimately have "\<lfloor>(v - 0.125) / 0.25\<rfloor> = m - 1" by simp
  then have err: "pymod (v - 0.125) 0.25 - 0.125 = e"
    unfolding pymod_def by (simp add: v field_simps)
  have r: "py_round (v * 4) = of_int m"
  proof (cases "0 \<le> v * 4")
    case True
    have "\<lfloor>v * 4 + 1/2\<rfloor> = m"
      using e by (intro floor_unique) (simp_all add: v abs_less_iff)
    with True show ?thesis by (simp add: py_round_def)
  next
    case False
    have "\<lfloor>- (v * 4) + 1/2\<rfloor> = - m"
      using e by (intro floor_unique) (simp_all add: v abs_less_iff)
    with False show ?thesis by (simp add: py_round_def)
  qed
  show ?thesis
    unfolding smooth_near_quarter_turn_def err Let_def using e r by simp
qed


lemma round_trip_fails_component_snapped:
  "turns (Rotation_init (10000000/100000000000001) (99999999999999/200000000000002) 0) = 1/2
   \<and> from_quaternion (as_quaternion
         (Rotation_init (10000000/100000000000001) (99999999999999/200000000000002) 0))
       = Inr (Rotation_init 0 (1/2) 0)
   \<and> \<not> Rotation_eq (Rotation_init 0 (1/2) 0)
         (Rotation_init (10000000/100000000000001) (99999999999999/200000000000002) 0)"
proof -
  let ?x = "10000000/100000000000001 :: real"
  let ?y = "99999999999999/200000000000002 :: real"
  have "?x\<^sup>2 + ?y\<^sup>2 + 0\<^sup>2 = (1/2)\<^sup>2"
    by (simp add: power2_eq_square)
  then have t: "turns (Rotation_init ?x ?y 0) = 1/2"
    unfolding turns_init by (simp only: real_sqrt_abs)
  have sx: "smooth_near_quarter_turn ?x = 0"
    using smooth_snap [of ?x 0] by simp
  have sy: "smooth_near_quarter_turn ?y = 1/2"
    using smooth_snap [of ?y 2] by simp
  have "from_quaternion (as_quaternion (Rotation_init ?x ?y 0)) =
     Inr (Rotation_init (smooth_near_quarter_turn ?x) (smooth_near_quarter_turn ?y)
            (smooth_near_quarter_turn 0))"
    by (rule from_as_quaternion) (simp_all add: t smooth_half)
  then have f: "from_quaternion (as_quaternion (Rotation_init ?x ?y 0)) = Inr (Rotation_init 0 (1/2) 0)"
    by (simp only: sx sy smooth_zero)
  have c1: "fst (snd (canonical (Rotation_init 0 (1/2) 0))) = 0"
    by (simp add: canonical_def axis_def turns_def Rotation_init_def pymod_def Let_def)
  have c2: "fst (snd (canonical (Rotation_init ?x ?y 0))) \<noteq> 0"
    by (simp add: canonical_def axis_def t pymod_def Let_def) (simp add: Rotation_init_def)
  show ?thesis
    using t f c1 c2 by (auto simp: Rotation_eq_def)
qed


lemma cos_plus_sin_bounds:
  fixes e :: real
  assumes "0 \<le> e" "e \<le> 1"
  shows "1 \<le> cos e + sin e" and "cos e + sin e \<le> 1 + e"
proof -
  have "e \<le> pi" "e \<le> pi / 2" "- (pi / 2) \<le> e"
    using assms pi_ge_two by linarith+
  have s0: "0 \<le> sin e"
    using assms(1) \<open>e \<le> pi\<close> by (rule sin_ge_zero)
  have c0: "0 \<le> cos e"
    using \<open>- (pi / 2) \<le> e\<close> \<open>e \<le> pi / 2\<close> by (rule cos_ge_zero)
  have "(cos e + sin e)\<^sup>2 = 1 + 2 * (sin e * cos e)"
    using sin_cos_squared_add [of e] by (simp add: power2_eq_square algebra_simps)
  moreover have "0 \<le> sin e * cos e" using s0 c0 by simp
  ultimately have "1\<^sup>2 \<le> (cos e + sin e)\<^sup>2" by simp
  moreover have "0 \<le> cos e + sin e" using s0 c0 by simp
  ultimately show "1 \<le> cos e + sin e"
    by (rule power2_le_imp_le)
  have "sin e \<le> e" using assms(1) by (rule sin_x_le_x)
  then show "cos e + sin e \<le> 1 + e"
    using cos_le_one [of e] by linarith
qed

lemma round_trip_fails_turns_snapped:
  "turns (Rotation_init (2500001/10000000) 0 0) = 2500001/10000000
   \<and> from_quaternion (as_quaternion (Rotation_init (2500001/10000000) 0 0))
       = Inr (Rotation_init (1/4) 0 0)
   \<and> \<not> Rotation_eq (Rotation_init (1/4) 0 0) (Rotation_init (2500001/10000000) 0 0)"
proof -
  let ?t = "2500001/10000000 :: real"
  define e where "e = pi / 10000000"
  have e: "0 \<le> e" "e \<le> 1" "e < 4 / 10000000"
    using pi_ge_zero pi_less_4 by (simp_all add: e_def)
  have t: "turns (Rotation_init ?t 0 0) = ?t"
    by (simp add: turns_init)
  define s where "s = sin (pi * ?t) / ?t"
  have q: "as_quaternion (Rotation_init ?t 0 0) = Quaternion_init (cos (pi * ?t)) (s * ?t) (s * 0) (s * 0)"
    using as_quaternion_main [of ?t 0 0] unfolding t s_def by simp
  have a: "0 \<le> pi * ?t" "pi * ?t \<le> pi" by simp_all
  have sp: "0 \<le> sin (pi * ?t)" using a by (rule sin_ge_zero)
  have pt: "pi * ?t = pi / 4 + e" by (simp add: e_def)
  have st: "s * ?t = sin (pi * ?t)" by (simp add: s_def)
  have n: "sqrt ((s * ?t)\<^sup>2 + (s * 0)\<^sup>2 + (s * 0)\<^sup>2) = sin (pi * ?t)"
    unfolding st using sp by simp
  have tr: "2 * trig_tau_atan2 (sqrt ((s * ?t)\<^sup>2 + (s * 0)\<^sup>2 + (s * 0)\<^sup>2)) (cos (pi * ?t)) = ?t"
    unfolding n using atan2_polar [OF a] by (simp add: tau_def)
  have sm: "smooth_near_quarter_turn ?t = 1/4"
    using smooth_snap [of ?t 1] by simp
  have d: "trig_tau_sinc ((1/4) / 2) / 2 = 2 * sqrt 2"
    by (simp add: trig_tau_sinc_def trig_tau_sin_def tau_def sin_45)
  have d0: "2 * sqrt 2 \<noteq> (0::real)" by simp
  have sa: "sin (pi / 4 + e) = sqrt 2 / 2 * (cos e + sin e)"
    unfolding sin_add sin_45 cos_45 by (simp add: algebra_simps)
  have x': "s * ?t / (2 * sqrt 2) = (cos e + sin e) / 4"
    unfolding st pt sa by (simp add: field_simps)
  have "\<bar>(cos e + sin e) / 4 - of_int 1 / 4\<bar> < 0.000001"
    using cos_plus_sin_bounds [OF e(1,2)] e(3) by (simp add: abs_less_iff)
  then have sx: "smooth_near_quarter_turn ((cos e + sin e) / 4) = 1/4"
    using smooth_snap [of "(cos e + sin e) / 4" 1] by simp
  have f: "from_quaternion (as_quaternion (Rotation_init ?t 0 0)) = Inr (Rotation_init (1/4) 0 0)"
    unfolding q using from_quaternion_eval [OF tr sm d d0]
    by (simp only: x' sx mult_zero_right div_0 smooth_zero)
  have c: "canonical (Rotation_init ?t 0 0) = (?t, 1, 0, 0)"
    by (simp add: canonical_def axis_def t pymod_def Let_def) (simp add: Rotation_init_def)
  show ?thesis
    using t f by (simp add: Rotation_eq_def c canonical_x_quarter)
qed

text \<open>
  C2, as stated: for every Rotation \<open>r\<close> whose \<open>turns()\<close> lies in \<open>(0, 0.5]\<close>,
  \<^verbatim>\<open>Rotation.from_quaternion(r.as_quaternion())\<close> is \<^verbatim>\<open>==\<close> to \<open>r\<close>. It fails below the
  guard \<^verbatim>\<open>t < 0.000001\<close> of \<^verbatim>\<open>as_quaternion\<close>, which returns the identity quaternion:
  the rotation by \<open>0.0000005\<close> turns about the x axis comes back as no rotation. The lemmas
  \<open>round_trip_fails_component_snapped\<close> and \<open>round_trip_fails_turns_snapped\<close> above
  show the two other ways it fails, both through \<^verbatim>\<open>smooth_near_quarter_turn\<close>.
\<close>

theorem quaternion_round_trip_counterexample:
  "0 < turns (Rotation_init (1/2000000) 0 0) \<and> turns (Rotation_init (1/2000000) 0 0) \<le> 0.5
   \<and> from_quaternion (as_quaternion (Rotation_init (1/2000000) 0 0)) = Inr (Rotation_init 0 0 0)
   \<and> canonical (Rotation_init 0 0 0) = (0, 0, 0, 0)
   \<and> canonical (Rotation_init (1/2000000) 0 0) = (1/2000000, 1, 0, 0)
   \<and> \<not> returns_eq (from_quaternion (as_quaternion (Rotation_init (1/2000000) 0 0)))
         (Rotation_init (1/2000000) 0 0)"
proof -
  have t: "turns (Rotation_init (1/2000000) 0 0) = 1/2000000"
    by (simp add: turns_init)
  have q: "as_quaternion (Rotation_init (1/2000000) 0 0) = Quaternion_init 1 0 0 0"
    by (simp add: as_quaternion_def t)
  have c: "canonical (Rotation_init (1/2000000) 0 0) = (1/2000000, 1, 0, 0)"
    by (simp add: canonical_def axis_def t pymod_def Let_def) (simp add: Rotation_init_def)
  show ?thesis
    by (simp add: t q from_quaternion_one returns_eq_def Rotation_eq_def canonical_zero c)
qed

text \<open>
  C2, amended: for every Rotation \<open>r\<close> whose \<open>turns()\<close> lies in \<open>[0.000001, 0.5]\<close> and
  whose turns and three components are left unchanged by \<^verbatim>\<open>smooth_near_quarter_turn\<close>,
  \<^verbatim>\<open>Rotation.from_quaternion(r.as_quaternion())\<close> returns a rotation with exactly the
  components of \<open>r\<close>, hence \<^verbatim>\<open>==\<close> to \<open>r\<close> (in exact real arithmetic).
\<close>

theorem quaternion_round_trip:
  assumes "0.000001 \<le> turns (Rotation_init x y z)" and "turns (Rotation_init x y z) \<le> 0.5"
    and "smooth_near_quarter_turn (turns (Rotation_init x y z)) = turns (Rotation_init x y z)"
    and "smooth_near_quarter_turn x = x" and "smooth_near_quarter_turn y = y"
    and "smooth_near_quarter_turn z = z"
  shows "from_quaternion (as_quaternion (Rotation_init x y z)) = Inr (Rotation_init x y z)
         \<and> returns_eq (from_quaternion (as_quaternion (Rotation_init x y z))) (Rotation_init x y z)"
proof -
  have "turns (Rotation_init x y z) < 1"
    using assms(2) by simp
  from from_as_quaternion [OF assms(1) this assms(3)]
  show ?thesis
    by (simp add: assms(4-6) returns_eq_def Rotation_eq_def)
qed

theorem quaternion_round_trip_witness:
  "from_quaternion (as_quaternion (Rotation_init (3/10) (2/5) 0)) = Inr (Rotation_init (3/10) (2/5) 0)
   \<and> returns_eq (from_quaternion (as_quaternion (Rotation_init (3/10) (2/5) 0)))
        (Rotation_init (3/10) (2/5) 0)"
proof -
  have "0.000001 \<le> turns (Rotation_init (3/10) (2/5) 0)"
    and "turns (Rotation_init (3/10) (2/5) 0) \<le> 0.5"
    and "smooth_near_quarter_turn (turns (Rotation_init (3/10) (2/5) 0))
         = turns (Rotation_init (3/10) (2/5) 0)"
    by (simp_all add: turns_3_4 smooth_half)
  then show ?thesis
    using smooth_3_10 smooth_2_5 smooth_zero by (rule quaternion_round_trip)
qed

subsection \<open>The decomposition of a unitary matrix\<close>

lemma unitary_eqs:
  assumes "unitary (mat a b c d)"
  shows "a * cnj a + b * cnj b = 1" "c * cnj c + d * cnj d = 1" "a * cnj c + b * cnj d = 0"
    "cnj a * a + cnj c * c = 1" "cnj b * b + cnj d * d = 1" "cnj a * b + cnj c * d = 0"
  using assms by (simp_all add: unitary_def mat_mul_def dagger_def identity_def mat_def)

lemma parallel:
  assumes "unitary (mat a b c d)"
  defines "t \<equiv> (a + d) / (2 * \<i>)" and "x \<equiv> (b + c) / 2"
    and "y \<equiv> (b - c) / (- (2 * \<i>))" and "z \<equiv> (a - d) / 2"
  shows "Im (t * cnj x) = 0" "Im (t * cnj y) = 0" "Im (t * cnj z) = 0"
    "Im (x * cnj y) = 0" "Im (x * cnj z) = 0" "Im (y * cnj z) = 0"
proof -
  obtain a1 a2 b1 b2 c1 c2 d1 d2 where
    v: "a = Complex a1 a2" "b = Complex b1 b2" "c = Complex c1 c2" "d = Complex d1 d2"
    by (metis complex.exhaust)
  have e: "a1 * a1 + a2 * a2 + b1 * b1 + b2 * b2 = 1"
    "c1 * c1 + c2 * c2 + d1 * d1 + d2 * d2 = 1"
    "a1 * c1 + a2 * c2 + b1 * d1 + b2 * d2 = 0"
    "a2 * c1 + b2 * d1 = a1 * c2 + b1 * d2"
    "a1 * a1 + a2 * a2 + c1 * c1 + c2 * c2 = 1"
    "b1 * b1 + b2 * b2 + d1 * d1 + d2 * d2 = 1"
    "a1 * b1 + a2 * b2 + c1 * d1 + c2 * d2 = 0"
    "a1 * b2 + c1 * d2 = a2 * b1 + c2 * d1"
    using unitary_eqs [OF assms(1)] unfolding v complex_eq_iff by simp_all
  have t: "t = Complex ((a2 + d2) / 2) ((- a1 - d1) / 2)"
    unfolding t_def v
    by (simp add: complex_eq_iff Re_divide Im_divide power2_eq_square; simp add: field_simps)
  have x: "x = Complex ((b1 + c1) / 2) ((b2 + c2) / 2)"
    unfolding x_def v by (simp add: complex_eq_iff)
  have y: "y = Complex ((c2 - b2) / 2) ((b1 - c1) / 2)"
    unfolding y_def v
    by (simp add: complex_eq_iff Re_divide Im_divide power2_eq_square; simp add: field_simps)
  have z: "z = Complex ((a1 - d1) / 2) ((a2 - d2) / 2)"
    unfolding z_def v by (simp add: complex_eq_iff)
  show "Im (t * cnj x) = 0"
    unfolding t x using e(3,7) by (simp add: field_simps; linarith?)
  show "Im (t * cnj y) = 0"
    unfolding t y using e(4,8) by (simp add: field_simps; linarith?)
  show "Im (t * cnj z) = 0"
    unfolding t z using e(1,6) by (simp add: field_simps; linarith?)
  show "Im (x * cnj y) = 0"
    unfolding x y using e(1,5) by (simp add: field_simps; linarith?)
  show "Im (x * cnj z) = 0"
    unfolding x z using e(4,8) by (simp add: field_simps; linarith?)
  show "Im (y * cnj z) = 0"
    unfolding y z using e(3,7) by (simp add: field_simps; linarith?)
qed


lemma py_max_key_max:
  "py_max_key key best es \<in> set (best # es)
   \<and> (\<forall>e \<in> set (best # es). key e \<le> key (py_max_key key best es))"
proof (induction es arbitrary: best)
  case Nil
  show ?case by simp
next
  case (Cons e es)
  from Cons [of "if key e > key best then e else best"] show ?case
    by (auto split: if_splits)
qed

lemma real_quotient:
  assumes "Im (u * cnj e) = 0" and "e \<noteq> 0"
  shows "complex_of_real (Re (u / (e / of_real (cmod e)))) = u / (e / of_real (cmod e))"
proof -
  have "e * cnj e = of_real ((cmod e)\<^sup>2)"
    by (rule complex_norm_square [symmetric])
  then have r: "of_real (cmod e) / e = cnj e / of_real (cmod e)"
    using assms(2) by (simp add: field_simps power2_eq_square)
  have "u / (e / of_real (cmod e)) = u * (of_real (cmod e) / e)"
    by simp
  also have "\<dots> = u * (cnj e / of_real (cmod e))"
    by (simp only: r)
  finally have q: "u / (e / of_real (cmod e)) = (u * cnj e) / of_real (cmod e)"
    by simp
  have "Im ((u * cnj e) / of_real (cmod e)) = 0"
    using assms(1) by simp
  then show ?thesis
    unfolding q by (simp add: complex_eq_iff)
qed

lemma Im_cnj_sym: "Im (u * cnj e) = 0 \<Longrightarrow> Im (e * cnj u) = 0"
  by (simp add: algebra_simps)

lemma mat_eta: "mat (m00 m) (m01 m) (m10 m) (m11 m) = (m :: mat2)"
  by (simp add: mat_def)

lemma unitary_identity: "unitary identity"
  by (simp add: unitary_def mat_mul_def dagger_def identity_def mat_def)

lemma unitary_pauli_Y: "unitary pauli_Y"
  by (simp add: unitary_def mat_mul_def dagger_def identity_def pauli_Y_def mat_def)

lemma unitary_breakdown_identity: "unitary_breakdown identity = (1, 0, 0, 0, - \<i>)"
  by (simp add: unitary_breakdown_def pauli_components_def identity_def mat_def Let_def)

lemma unitary_breakdown_pauli_Y: "unitary_breakdown pauli_Y = (0, 0, 1, 0, 1)"
  by (simp add: unitary_breakdown_def pauli_components_def pauli_Y_def mat_def Let_def)

text \<open>
  C3, as stated: for every 2x2 unitary matrix \<open>m\<close>, \<^verbatim>\<open>unitary_breakdown(m)\<close> returns
  \<open>(t, x, y, z, p)\<close> with \<open>m = p * (t*I + x*X + y*Y + z*Z)\<close>, \<open>I\<close> the identity. It fails
  at the identity matrix, the first doctest of the function: the result is
  \<open>(1, 0, 0, 0, -i)\<close>, and \<open>-i * (1*I)\<close> is not the identity.
\<close>

theorem unitary_breakdown_counterexample:
  "unitary identity \<and> unitary_breakdown identity = (1, 0, 0, 0, - \<i>)
   \<and> identity \<noteq> mat_scale (- \<i>)
        (mat_add (mat_add (mat_add (mat_scale (of_real 1) identity)
                                   (mat_scale (of_real 0) pauli_X))
                          (mat_scale (of_real 0) pauli_Y))
                 (mat_scale (of_real 0) pauli_Z))"
  by (simp add: unitary_identity unitary_breakdown_identity)
    (simp add: mat_scale_def mat_add_def identity_def pauli_X_def pauli_Y_def pauli_Z_def mat_def
      complex_eq_iff)

lemma unitary_breakdown_full:
  assumes "unitary m" and "unitary_breakdown m = (t, x, y, z, p)"
  shows "cmod p = 1
    \<and> m = mat_scale p
        (mat_add (mat_add (mat_add (mat_scale (of_real t) (mat_scale \<i> identity))
                                   (mat_scale (of_real x) pauli_X))
                          (mat_scale (of_real y) pauli_Y))
                 (mat_scale (of_real z) pauli_Z))
    \<and> (\<exists>e \<in> set (pauli_components m).
          (\<forall>e' \<in> set (pauli_components m). cmod e' \<le> cmod e) \<and> p = e / of_real (cmod e))"
proof -
  define a b c d where "a = m00 m" and "b = m01 m" and "c = m10 m" and "d = m11 m"
  have m: "m = mat a b c d"
    by (simp add: a_def b_def c_def d_def mat_eta)
  have u: "unitary (mat a b c d)" using assms(1) m by simp
  define tc xc yc zc where "tc = (a + d) / (2 * \<i>)" and "xc = (b + c) / 2"
    and "yc = (b - c) / (- (2 * \<i>))" and "zc = (a - d) / 2"
  have pc: "pauli_components m = [tc, xc, yc, zc]"
    by (simp add: pauli_components_def Let_def tc_def xc_def yc_def zc_def a_def b_def c_def d_def)
  define e where "e = py_max_key cmod tc [xc, yc, zc]"
  have emax: "e \<in> set [tc, xc, yc, zc]" "\<forall>e' \<in> set [tc, xc, yc, zc]. cmod e' \<le> cmod e"
    using py_max_key_max [of cmod tc "[xc, yc, zc]"] by (simp_all add: e_def)
  define q where "q = e / of_real (cmod e)"
  have "unitary_breakdown m = (Re (tc / q), Re (xc / q), Re (yc / q), Re (zc / q), q)"
    unfolding unitary_breakdown_def pc e_def q_def by (simp only: list.simps Let_def)
  with assms(2) have res: "p = q" "t = Re (tc / q)" "x = Re (xc / q)"
    "y = Re (yc / q)" "z = Re (zc / q)"
    by auto
  have e0: "e \<noteq> 0"
  proof
    assume "e = 0"
    with emax(2) have "tc = 0" "xc = 0" "yc = 0" "zc = 0" by simp_all
    then have "a = 0" "b = 0"
      by (simp_all add: tc_def xc_def yc_def zc_def)
    with unitary_eqs(1) [OF u] show False by simp
  qed
  note par = parallel [OF u, folded tc_def xc_def yc_def zc_def]
  have self: "Im (w * cnj w) = 0" for w :: complex
    by (simp add: complex_mult_cnj)
  have allpar: "Im (tc * cnj e) = 0" "Im (xc * cnj e) = 0" "Im (yc * cnj e) = 0"
    "Im (zc * cnj e) = 0"
    using emax(1) par par [THEN Im_cnj_sym] self by auto
  have rq: "of_real t = tc / q" "of_real x = xc / q" "of_real y = yc / q" "of_real z = zc / q"
    unfolding res q_def
    by (rule real_quotient [OF allpar(1) e0] real_quotient [OF allpar(2) e0]
        real_quotient [OF allpar(3) e0] real_quotient [OF allpar(4) e0])+
  have q1: "cmod q = 1"
    using e0 by (simp add: q_def norm_divide)
  then have q0: "q \<noteq> 0" by auto
  have ent: "a = \<i> * tc + zc" "b = xc - \<i> * yc" "c = xc + \<i> * yc" "d = \<i> * tc - zc"
    by (simp_all add: tc_def xc_def yc_def zc_def field_simps)
  have "m = mat_scale q
        (mat_add (mat_add (mat_add (mat_scale (of_real t) (mat_scale \<i> identity))
                                   (mat_scale (of_real x) pauli_X))
                          (mat_scale (of_real y) pauli_Y))
                 (mat_scale (of_real z) pauli_Z))"
    unfolding m rq using q0
    by (simp add: mat_scale_def mat_add_def identity_def pauli_X_def pauli_Y_def pauli_Z_def
        mat_def ent field_simps)
  moreover have "\<exists>e \<in> set (pauli_components m).
          (\<forall>e' \<in> set (pauli_components m). cmod e' \<le> cmod e) \<and> q = e / of_real (cmod e)"
    unfolding pc using emax q_def by blast
  ultimately show ?thesis
    using q1 unfolding res(1) by blast
qed

text \<open>
  C3, amended: for every 2x2 unitary matrix \<open>m\<close>, \<^verbatim>\<open>unitary_breakdown(m)\<close> returns a
  tuple \<open>(t, x, y, z, p)\<close> of four real numbers and one complex number \<open>p\<close> of modulus 1
  such that \<open>m = p * (t*(i*I) + x*X + y*Y + z*Z)\<close>, where \<open>I\<close> is the 2x2 identity, \<open>i\<close>
  the imaginary unit and \<open>X\<close>, \<open>Y\<close>, \<open>Z\<close> the Pauli matrices (the basis
  \<^verbatim>\<open><Ii, X, Y, Z>\<close> of the docstring), and \<open>p\<close> is the one of the four complex
  coefficients of \<open>m\<close> in that basis with the largest magnitude, normalised to modulus 1.
\<close>

theorem unitary_breakdown_decomposition:
  assumes "unitary m" and "unitary_breakdown m = (t, x, y, z, p)"
  shows "cmod p = 1
    \<and> m = mat_scale p
        (mat_add (mat_add (mat_add (mat_scale (of_real t) (mat_scale \<i> identity))
                                   (mat_scale (of_real x) pauli_X))
                          (mat_scale (of_real y) pauli_Y))
                 (mat_scale (of_real z) pauli_Z))
    \<and> (\<exists>e \<in> set (pauli_components m).
          (\<forall>e' \<in> set (pauli_components m). cmod e' \<le> cmod e) \<and> p = e / of_real (cmod e))"
  using assms by (rule unitary_breakdown_full)

theorem unitary_breakdown_decomposition_witness:
  "unitary pauli_Y \<and> unitary_breakdown pauli_Y = (0, 0, 1, 0, 1) \<and> cmod 1 = 1
    \<and> pauli_Y = mat_scale 1
        (mat_add (mat_add (mat_add (mat_scale (of_real 0) (mat_scale \<i> identity))
                                   (mat_scale (of_real 0) pauli_X))
                          (mat_scale (of_real 1) pauli_Y))
                 (mat_scale (of_real 0) pauli_Z))"
  using unitary_breakdown_decomposition [OF unitary_pauli_Y unitary_breakdown_pauli_Y]
    unitary_pauli_Y unitary_breakdown_pauli_Y
  by simp

subsection \<open>Rotations as unitary matrices\<close>

lemma quaternion_matrix_mul:
  "quaternion_matrix (Quaternion_mul p q) = mat_mul (quaternion_matrix p) (quaternion_matrix q)"
  by (simp add: quaternion_matrix_def Quaternion_mul_def Quaternion_init_def mat_mul_def mat_def
      complex_eq_iff algebra_simps)

lemma half_angle_plus: "(1 + cis (2 * a)) / 2 = cis a * of_real (cos a)"
  by (simp add: complex_eq_iff cos_double_cos sin_double power2_eq_square)

lemma half_angle_minus: "(1 - cis (2 * a)) / 2 = - \<i> * cis a * of_real (sin a)"
  by (simp add: complex_eq_iff cos_double_sin sin_double power2_eq_square)

lemma copysign_cases: "py_copysign 1 w = 1 \<or> py_copysign 1 w = - 1"
  by (simp add: py_copysign_def)

lemma expi_signed:
  assumes "s = 1 \<or> s = - 1"
  shows "trig_tau_expi (s * t) = cis (2 * (pi * (s * t)))"
    and "cos (pi * (s * t)) = cos (pi * t)"
    and "s * sin (pi * (s * t)) = sin (pi * t)"
  using assms by (auto simp: trig_tau_expi_def tau_def mult_ac)

lemma cv_small:
  assumes "t \<noteq> 0" and "s = 1 \<or> s = - 1"
  shows "of_real (trig_tau_sin (t / 2) * trig_tau_sinc (t / 2))
           - \<i> * of_real s * of_real (trig_tau_sinc t)
         = (1 - trig_tau_expi (s * t)) / of_real t"
proof -
  define n c2 s2 where "n = sin (pi * t)" and "c2 = cos (2 * (pi * t))" and "s2 = sin (2 * (pi * t))"
  have c2n: "c2 = 1 - 2 * n * n"
    by (simp add: c2_def n_def cos_double_sin power2_eq_square)
  have a: "trig_tau_sin (t / 2) = n" "trig_tau_sin t = s2"
    by (simp_all add: trig_tau_sin_def tau_def n_def s2_def mult_ac)
  have e: "trig_tau_expi (s * t) = Complex c2 (s * s2)"
    using assms(2) by (auto simp: trig_tau_expi_def tau_def complex_eq_iff c2_def s2_def mult_ac)
  show ?thesis
    unfolding e using assms(1)
    by (simp add: trig_tau_sinc_def a complex_eq_iff c2n field_simps)
qed

lemma sum_squares_zero:
  fixes x y z :: real
  assumes "sqrt (x\<^sup>2 + y\<^sup>2 + z\<^sup>2) = 0"
  shows "x = 0" "y = 0" "z = 0"
proof -
  have "x\<^sup>2 + y\<^sup>2 + z\<^sup>2 = 0"
    using assms by simp
  moreover have "0 \<le> x\<^sup>2" "0 \<le> y\<^sup>2" "0 \<le> z\<^sup>2" by simp_all
  ultimately have "x\<^sup>2 = 0" "y\<^sup>2 = 0" "z\<^sup>2 = 0" by linarith+
  then show "x = 0" "y = 0" "z = 0" by simp_all
qed

lemma as_pauli_zero: "as_pauli_operation (Rotation_init 0 0 0) = identity"
  by (simp add: as_pauli_operation_def Rotation_init_def py_copysign_def trig_tau_expi_def
      mat_scale_def mat_add_def identity_def pauli_X_def pauli_Y_def pauli_Z_def mat_def)

lemma as_pauli_main:
  assumes "0.000001 \<le> turns (Rotation_init x y z)"
  defines "s \<equiv> py_copysign 1 (11 * x + 13 * y + 17 * z)"
  shows "as_pauli_operation (Rotation_init x y z) =
     mat_scale (cis (pi * (s * turns (Rotation_init x y z))))
       (quaternion_matrix (as_quaternion (Rotation_init x y z)))"
proof -
  define t where "t = turns (Rotation_init x y z)"
  have t: "sqrt (x\<^sup>2 + y\<^sup>2 + z\<^sup>2) = t" by (simp add: t_def turns_init)
  have t0: "t \<noteq> 0" "\<not> t < 0.000001" using assms(1) by (simp_all add: t_def)
  have s: "s = 1 \<or> s = - 1" unfolding s_def by (rule copysign_cases)
  define k where "k = cis (pi * (s * t))"
  define c n where "c = cos (pi * t)" and "n = sin (pi * t)"
  have ci: "(1 + trig_tau_expi (s * t)) / 2 = k * of_real c"
    unfolding expi_signed(1) [OF s] half_angle_plus expi_signed(2) [OF s] k_def c_def ..
  have "(1 - trig_tau_expi (s * t)) / 2 * of_real s = - \<i> * k * of_real (s * sin (pi * (s * t)))"
    unfolding expi_signed(1) [OF s] half_angle_minus k_def by simp
  then have cv: "(1 - trig_tau_expi (s * t)) / 2 * of_real s = - \<i> * k * of_real n"
    unfolding expi_signed(3) [OF s] n_def .
  have cvb: "(if t < 0.001
                then of_real (trig_tau_sin (t / 2) * trig_tau_sinc (t / 2))
                       - \<i> * of_real s * of_real (trig_tau_sinc t)
                else (1 - trig_tau_expi (s * t)) / of_real t) = (1 - trig_tau_expi (s * t)) / of_real t"
    using cv_small [OF t0(1) s] by simp
  have q: "as_quaternion (Rotation_init x y z) = Quaternion_init c (n / t * x) (n / t * y) (n / t * z)"
    unfolding c_def n_def t_def using t0(2) [unfolded t_def] by (rule as_quaternion_main)
  have p: "as_pauli_operation (Rotation_init x y z) =
      mat_scale (1 / 2) (mat_add (mat_scale (1 + trig_tau_expi (s * t)) identity)
         (mat_scale ((1 - trig_tau_expi (s * t)) / of_real t)
            (mat_scale (of_real s)
               (mat_add (mat_add (mat_scale (of_real x) pauli_X) (mat_scale (of_real y) pauli_Y))
                  (mat_scale (of_real z) pauli_Z)))))"
  proof -
    have rv: "rot_v (Rotation_init x y z) = (x, y, z)"
      by (simp add: Rotation_init_def)
    show ?thesis
      unfolding as_pauli_operation_def rv
      by (simp only: prod.case Let_def t s_def [symmetric] cvb)
  qed
  define A B where "A = (1 + trig_tau_expi (s * t)) / 2"
    and "B = (1 - trig_tau_expi (s * t)) / 2 * of_real s"
  have lhs: "mat_scale (1 / 2) (mat_add (mat_scale (1 + trig_tau_expi (s * t)) identity)
         (mat_scale ((1 - trig_tau_expi (s * t)) / of_real t)
            (mat_scale (of_real s)
               (mat_add (mat_add (mat_scale (of_real x) pauli_X) (mat_scale (of_real y) pauli_Y))
                  (mat_scale (of_real z) pauli_Z)))))
      = mat (A + B * of_real z / of_real t) (B * (of_real x - \<i> * of_real y) / of_real t)
            (B * (of_real x + \<i> * of_real y) / of_real t) (A - B * of_real z / of_real t)"
    using t0(1)
    by (simp add: A_def B_def mat_scale_def mat_add_def identity_def pauli_X_def pauli_Y_def
        pauli_Z_def mat_def field_simps)
  have rhs: "mat_scale k (quaternion_matrix (Quaternion_init c (n / t * x) (n / t * y) (n / t * z)))
      = mat (k * of_real c + (- \<i> * k * of_real n) * of_real z / of_real t)
            ((- \<i> * k * of_real n) * (of_real x - \<i> * of_real y) / of_real t)
            ((- \<i> * k * of_real n) * (of_real x + \<i> * of_real y) / of_real t)
            (k * of_real c - (- \<i> * k * of_real n) * of_real z / of_real t)"
    using t0(1)
    by (simp add: quaternion_matrix_def Quaternion_init_def mat_scale_def mat_def Complex_eq
        field_simps)
  show ?thesis
    unfolding p q lhs rhs t_def [symmetric] k_def [symmetric]
    using ci cv by (simp add: A_def B_def)
qed

lemma qnorm2_mul: "qnorm2 (Quaternion_mul p q) = qnorm2 p * qnorm2 q"
  by (simp add: qnorm2_def Quaternion_mul_def Quaternion_init_def power2_eq_square algebra_simps)

lemma qnorm2_as_quaternion: "qnorm2 (as_quaternion (Rotation_init x y z)) = 1"
proof (cases "turns (Rotation_init x y z) < 0.000001")
  case True
  then show ?thesis by (simp add: as_quaternion_def qnorm2_def Quaternion_init_def)
next
  case False
  define t where "t = turns (Rotation_init x y z)"
  have t2: "t\<^sup>2 = x\<^sup>2 + y\<^sup>2 + z\<^sup>2" by (simp add: t_def turns_init)
  have t0: "t \<noteq> 0" using False by (auto simp: t_def)
  define s where "s = sin (pi * t) / t"
  have "(s * x)\<^sup>2 + (s * y)\<^sup>2 + (s * z)\<^sup>2 = s\<^sup>2 * t\<^sup>2"
    unfolding t2 power_mult_distrib by (simp only: distrib_left)
  also have "\<dots> = (sin (pi * t))\<^sup>2" using t0 by (simp add: s_def power_divide)
  finally have "(cos (pi * t))\<^sup>2 + (s * x)\<^sup>2 + (s * y)\<^sup>2 + (s * z)\<^sup>2 = 1"
    using sin_cos_squared_add2 [of "pi * t"] by linarith
  then show ?thesis
    unfolding as_quaternion_main [OF False] t_def [symmetric] s_def [symmetric]
    by (simp add: qnorm2_def Quaternion_init_def)
qed

lemma unit_polar:
  fixes w r :: real
  assumes "w\<^sup>2 + r\<^sup>2 = 1" and "0 \<le> r"
  obtains al where "0 \<le> al" "al \<le> pi" "w = cos al" "r = sin al"
    "2 * trig_tau_atan2 r w = al / pi"
proof -
  have "w\<^sup>2 \<le> 1"
    using assms(1) zero_le_power2 [of r] by linarith
  then have "w\<^sup>2 \<le> 1\<^sup>2"
    by simp
  then have "\<bar>w\<bar> \<le> \<bar>1\<bar>"
    by (simp only: abs_le_square_iff)
  then have w1: "- 1 \<le> w" "w \<le> 1"
    by simp_all
  define al where "al = arccos w"
  have a: "0 \<le> al" "al \<le> pi" "cos al = w"
    using w1 by (simp_all add: al_def arccos_lbound arccos_ubound)
  have "\<bar>w\<bar> \<le> 1" using w1 by simp
  then have "sin al = sqrt (1 - w\<^sup>2)"
    unfolding al_def by (rule sin_arccos_abs)
  moreover have "1 - w\<^sup>2 = r\<^sup>2" using assms(1) by simp
  ultimately have r: "sin al = r" using assms(2) by simp
  have "2 * trig_tau_atan2 r w = al / pi"
    using atan2_polar [OF a(1,2)] unfolding r a(3) by (simp add: tau_def)
  with a r that show ?thesis by simp
qed

lemma from_quaternion_unit:
  assumes u: "qnorm2 (Quaternion_init w x y z) = 1"
    and si: "smoothing_inactive (Quaternion_init w x y z)"
    and ret: "from_quaternion (Quaternion_init w x y z) = Inr c"
  shows "turns c = 0 \<and> c = Rotation_init 0 0 0 \<and> Quaternion_init w x y z = Quaternion_init 1 0 0 0
         \<or> 0 < turns c \<and> c = Rotation_init (rot_x c) (rot_y c) (rot_z c)
            \<and> (0.000001 \<le> turns c \<longrightarrow> as_quaternion c = Quaternion_init w x y z)"
proof -
  define r where "r = sqrt (x\<^sup>2 + y\<^sup>2 + z\<^sup>2)"
  have r0: "0 \<le> r" by (simp add: r_def)
  have r2: "r\<^sup>2 = x\<^sup>2 + y\<^sup>2 + z\<^sup>2" by (simp add: r_def)
  have "w\<^sup>2 + r\<^sup>2 = 1"
    using u by (simp add: r2 qnorm2_def Quaternion_init_def)
  from unit_polar [OF this r0] obtain al where al: "0 \<le> al" "al \<le> pi" "w = cos al" "r = sin al"
    "2 * trig_tau_atan2 r w = al / pi" by blast
  define T where "T = al / pi"
  have alT: "al = pi * T" by (simp add: T_def)
  have T: "2 * trig_tau_atan2 (sqrt (x\<^sup>2 + y\<^sup>2 + z\<^sup>2)) w = T"
    using al(5) by (simp add: r_def T_def)
  define d where "d = trig_tau_sinc (T / 2) / 2"
  have sm: "smooth_near_quarter_turn T = T" "smooth_near_quarter_turn (x / d) = x / d"
    "smooth_near_quarter_turn (y / d) = y / d" "smooth_near_quarter_turn (z / d) = z / d"
    using si unfolding smoothing_inactive_def Let_def d_def
    by (simp_all add: Quaternion_init_def T)
  have d0: "d \<noteq> 0"
  proof
    assume "d = 0"
    then have "trig_tau_sinc (T / 2) = 0" by (simp add: d_def)
    then have "from_quaternion (Quaternion_init w x y z) = Inl ZeroDivisionError"
      by (simp add: from_quaternion_def Let_def Quaternion_init_def T sm(1))
    with ret show False by simp
  qed
  have c: "c = Rotation_init (x / d) (y / d) (z / d)"
    using from_quaternion_eval [OF T sm(1) d_def [symmetric] d0] ret by (simp add: sm)
  have T0: "0 \<le> T" using al(1) by (simp add: T_def)
  show ?thesis
  proof (cases "T = 0")
    case True
    then have "al = 0" by (simp add: alT)
    then have w: "w = 1" and "r = 0" using al(3,4) by simp_all
    then have "x = 0" "y = 0" "z = 0"
      using sum_squares_zero [of x y z] by (simp_all add: r_def)
    with w c show ?thesis by (simp add: turns_init)
  next
    case False
    then have Tp: "0 < T" using T0 by simp
    have dr: "d = r / T"
      using False by (simp add: d_def trig_tau_sinc_def trig_tau_sin_def tau_def al(4) alT mult_ac)
    have rp: "0 < r" using d0 r0 dr by (cases "r = 0") simp_all
    have dp: "0 < d" using rp Tp dr by simp
    have "(x / d)\<^sup>2 + (y / d)\<^sup>2 + (z / d)\<^sup>2 = (r / d)\<^sup>2"
      unfolding r2 power_divide by (simp only: add_divide_distrib)
    then have "turns c = r / d"
      unfolding c turns_init using rp dp by simp
    then have tc: "turns c = T"
      using rp Tp by (simp add: dr)
    have cc: "c = Rotation_init (rot_x c) (rot_y c) (rot_z c)"
      unfolding c by (simp add: Rotation_init_def)
    have "as_quaternion c = Quaternion_init w x y z" if "0.000001 \<le> turns c"
    proof -
      have nt: "\<not> turns (Rotation_init (x / d) (y / d) (z / d)) < 0.000001"
        using that unfolding c by simp
      have sd: "sin (pi * T) / T = d"
        by (simp add: dr al(4) alT)
      have k: "d * (v / d) = v" for v using d0 by simp
      show ?thesis
        unfolding c as_quaternion_main [OF nt] tc [unfolded c] sd k
        by (simp only: al(3) alT)
    qed
    with tc Tp cc show ?thesis by simp
  qed
qed

lemma quaternion_matrix_one: "quaternion_matrix (Quaternion_init 1 0 0 0) = identity"
  by (simp add: quaternion_matrix_def Quaternion_init_def identity_def mat_def complex_eq_iff)

lemma mat_scale_one: "mat_scale 1 m = m"
  by (simp add: mat_scale_def mat_def)

lemma mat_scale_scale: "mat_scale k (mat_scale l m) = mat_scale (k * l) m"
  by (simp add: mat_scale_def mat_def)

lemma mat_mul_scale: "mat_mul (mat_scale k m) (mat_scale l n) = mat_scale (k * l) (mat_mul m n)"
  by (simp add: mat_scale_def mat_mul_def mat_def algebra_simps)

lemma as_pauli_unit_phase:
  assumes "turns (Rotation_init x y z) = 0 \<or> 0.000001 \<le> turns (Rotation_init x y z)"
  shows "\<exists>k. cmod k = 1 \<and> as_pauli_operation (Rotation_init x y z) =
     mat_scale k (quaternion_matrix (as_quaternion (Rotation_init x y z)))"
  using assms
proof
  assume z: "turns (Rotation_init x y z) = 0"
  then have "x = 0" "y = 0" "z = 0"
    using sum_squares_zero [of x y z] by (simp_all add: turns_init)
  moreover have "as_quaternion (Rotation_init 0 0 0) = Quaternion_init 1 0 0 0"
    by (simp add: as_quaternion_def turns_init)
  ultimately have "cmod 1 = 1 \<and> as_pauli_operation (Rotation_init x y z) =
     mat_scale 1 (quaternion_matrix (as_quaternion (Rotation_init x y z)))"
    by (simp add: as_pauli_zero quaternion_matrix_one mat_scale_one)
  then show ?thesis by blast
next
  assume "0.000001 \<le> turns (Rotation_init x y z)"
  from as_pauli_main [OF this] show ?thesis
    using norm_cis by blast
qed

lemma as_quaternion_small:
  "as_quaternion (Rotation_init (1/2000000) 0 0) = Quaternion_init 1 0 0 0"
  "as_quaternion (Rotation_init 0 0 0) = Quaternion_init 1 0 0 0"
  by (simp_all add: as_quaternion_def turns_init)

lemma mat_mul_identity_left: "mat_mul identity m = m"
  by (simp add: mat_mul_def identity_def mat_def)

lemma as_pauli_small_offdiag:
  "Im (m01 (as_pauli_operation (Rotation_init (1/2000000) 0 0))) = - sin (pi / 1000000) / 2"
proof -
  have rv: "rot_v (Rotation_init (1/2000000) 0 0) = (1/2000000, 0, 0)"
    by (simp add: Rotation_init_def)
  have s: "py_copysign 1 (11 * (1/2000000) + 13 * 0 + 17 * 0) = 1"
    by (simp add: py_copysign_def)
  have t: "sqrt ((1/2000000)\<^sup>2 + 0\<^sup>2 + 0\<^sup>2) = (1/2000000 :: real)"
    by simp
  show ?thesis
    unfolding as_pauli_operation_def rv prod.case Let_def s t
    by (simp add: mat_scale_def mat_add_def identity_def pauli_X_def pauli_Y_def pauli_Z_def mat_def
        trig_tau_sinc_def trig_tau_sin_def tau_def)
qed

lemma as_quaternion_half_x: "as_quaternion (Rotation_init (1/2) 0 0) = Quaternion_init 0 1 0 0"
proof -
  have t: "turns (Rotation_init (1/2) 0 0) = 1/2" by (simp add: turns_init)
  have "\<not> turns (Rotation_init (1/2) 0 0) < 0.000001" by (simp add: t)
  from as_quaternion_main [OF this] show ?thesis
    by (simp add: t)
qed

lemma as_quaternion_half_y: "as_quaternion (Rotation_init 0 (1/2) 0) = Quaternion_init 0 0 1 0"
proof -
  have t: "turns (Rotation_init 0 (1/2) 0) = 1/2" by (simp add: turns_init)
  have "\<not> turns (Rotation_init 0 (1/2) 0) < 0.000001" by (simp add: t)
  from as_quaternion_main [OF this] show ?thesis
    by (simp add: t)
qed

lemma mul_half_y_half_x:
  "Quaternion_mul (Quaternion_init 0 0 1 0) (Quaternion_init 0 1 0 0) = Quaternion_init 0 0 0 (- 1)"
  by (simp add: Quaternion_mul_def Quaternion_init_def)

lemma smooth_minus_half: "smooth_near_quarter_turn (- (1/2)) = - (1/2)"
  using smooth_multiple [of "- 2"] by simp

lemma recovered_half:
  "2 * trig_tau_atan2 (sqrt (0\<^sup>2 + 0\<^sup>2 + (- 1)\<^sup>2)) 0 = 1/2"
  "trig_tau_sinc ((1/2) / 2) / 2 = 2"
  by (simp_all add: trig_tau_atan2_def trig_tau_sinc_def trig_tau_sin_def tau_def)

lemma then_half_x_half_y:
  "Rotation_then (Rotation_init (1/2) 0 0) (Rotation_init 0 (1/2) 0) = Inr (Rotation_init 0 0 (- (1/2)))"
proof -
  have d0: "(2::real) \<noteq> 0" by simp
  from from_quaternion_eval [OF recovered_half(1) smooth_half recovered_half(2) d0]
  show ?thesis
    by (simp add: Rotation_then_def as_quaternion_half_x as_quaternion_half_y mul_half_y_half_x
        smooth_zero smooth_minus_half)
qed

lemma smoothing_inactive_half:
  "smoothing_inactive (Quaternion_init 0 0 0 (- 1))"
proof -
  have a: "trig_tau_atan2 1 0 = 1/4" and b: "trig_tau_sinc (1/4) = 4"
    by (simp_all add: trig_tau_atan2_def trig_tau_sinc_def trig_tau_sin_def tau_def)
  show ?thesis
    unfolding smoothing_inactive_def Let_def
    by (simp add: Quaternion_init_def a b smooth_half smooth_zero smooth_minus_half)
qed

lemma quaternion_matrix_x_axis:
  "m00 (mat_scale k (quaternion_matrix (Quaternion_init w x 0 0))) = k * of_real w"
  "m01 (mat_scale k (quaternion_matrix (Quaternion_init w x 0 0))) = k * (- \<i> * of_real x)"
  by (simp_all add: mat_scale_def quaternion_matrix_def Quaternion_init_def mat_def complex_eq_iff)

text \<open>
  C1, as stated: for all Rotations \<open>a\<close> and \<open>b\<close>, the matrix
  \<^verbatim>\<open>(a.then(b)).as_pauli_operation()\<close> equals the product
  \<^verbatim>\<open>b.as_pauli_operation() * a.as_pauli_operation()\<close> multiplied by some complex scalar of
  modulus 1. It fails for \<open>a\<close> the rotation by \<open>0.0000005\<close> turns about the x axis and \<open>b\<close>
  no rotation: \<^verbatim>\<open>as_quaternion\<close> sends \<open>a\<close> to the identity quaternion, so \<^verbatim>\<open>a.then(b)\<close>
  is no rotation and its matrix is the identity, with the entry \<open>[0,1]\<close> equal to 0, while
  the same entry of the product is not 0; no scalar multiple of the product is the identity.
\<close>

theorem pauli_homomorphism_counterexample:
  "Rotation_then (Rotation_init (1/2000000) 0 0) (Rotation_init 0 0 0) = Inr (Rotation_init 0 0 0)
   \<and> m01 (as_pauli_operation (Rotation_init 0 0 0)) = 0
   \<and> m01 (mat_mul (as_pauli_operation (Rotation_init 0 0 0))
              (as_pauli_operation (Rotation_init (1/2000000) 0 0))) \<noteq> 0"
proof -
  have "Quaternion_mul (Quaternion_init 1 0 0 0) (Quaternion_init 1 0 0 0) = Quaternion_init 1 0 0 0"
    by (simp add: Quaternion_mul_def Quaternion_init_def)
  then have "Rotation_then (Rotation_init (1/2000000) 0 0) (Rotation_init 0 0 0)
      = Inr (Rotation_init 0 0 0)"
    by (simp add: Rotation_then_def as_quaternion_small from_quaternion_one)
  moreover have "m01 (as_pauli_operation (Rotation_init 0 0 0)) = 0"
    by (simp add: as_pauli_zero identity_def mat_def)
  moreover have "m01 (as_pauli_operation (Rotation_init (1/2000000) 0 0)) \<noteq> 0"
  proof
    assume "m01 (as_pauli_operation (Rotation_init (1/2000000) 0 0)) = 0"
    then have "sin (pi / 1000000) = 0"
      using as_pauli_small_offdiag by simp
    moreover have "0 < sin (pi / 1000000)"
      by (rule sin_gt_zero) (simp_all add: pi_gt_zero)
    ultimately show False by simp
  qed
  ultimately show ?thesis
    by (simp add: as_pauli_zero mat_mul_identity_left)
qed

lemma small_turn_breaks_homomorphism:
  "\<not> (\<exists>k. cmod k = 1 \<and> as_pauli_operation (Rotation_init 0 0 0) =
        mat_scale k (mat_mul (as_pauli_operation (Rotation_init 0 0 0))
                             (as_pauli_operation (Rotation_init (1/2000000) 0 0))))"
proof
  assume "\<exists>k. cmod k = 1 \<and> as_pauli_operation (Rotation_init 0 0 0) =
        mat_scale k (mat_mul (as_pauli_operation (Rotation_init 0 0 0))
                             (as_pauli_operation (Rotation_init (1/2000000) 0 0)))"
  then obtain k where k: "cmod k = 1"
    and e: "identity = mat_scale k (as_pauli_operation (Rotation_init (1/2000000) 0 0))"
    by (auto simp: as_pauli_zero mat_mul_identity_left)
  have "m01 identity = k * m01 (as_pauli_operation (Rotation_init (1/2000000) 0 0))"
    by (subst e) (simp add: mat_scale_def mat_def)
  moreover have "k \<noteq> 0" using k by auto
  ultimately have "m01 (as_pauli_operation (Rotation_init (1/2000000) 0 0)) = 0"
    by (simp add: identity_def mat_def)
  then have "sin (pi / 1000000) = 0"
    using as_pauli_small_offdiag by simp
  moreover have "0 < sin (pi / 1000000)"
    by (rule sin_gt_zero) (simp_all add: pi_gt_zero)
  ultimately show False by simp
qed

text \<open>
  The guard is not the only obstacle: when \<^verbatim>\<open>smooth_near_quarter_turn\<close> snaps the angle
  recovered by \<^verbatim>\<open>from_quaternion\<close>, the composed rotation is another rotation.
\<close>

lemma snapping_breaks_homomorphism:
  "Rotation_then (Rotation_init (2500001/10000000) 0 0) (Rotation_init 0 0 0)
     = Inr (Rotation_init (1/4) 0 0)
   \<and> \<not> (\<exists>k. cmod k = 1 \<and> as_pauli_operation (Rotation_init (1/4) 0 0) =
        mat_scale k (mat_mul (as_pauli_operation (Rotation_init 0 0 0))
                             (as_pauli_operation (Rotation_init (2500001/10000000) 0 0))))"
proof -
  let ?t = "2500001/10000000 :: real"
  have ta: "turns (Rotation_init ?t 0 0) = ?t" and tc: "turns (Rotation_init (1/4) 0 0) = 1/4"
    by (simp_all add: turns_init)
  have na: "\<not> turns (Rotation_init ?t 0 0) < 0.000001" 
    and nc: "\<not> turns (Rotation_init (1/4) 0 0) < 0.000001"
    by (simp_all add: ta tc)
  have qa: "as_quaternion (Rotation_init ?t 0 0) = Quaternion_init (cos (pi * ?t)) (sin (pi * ?t)) 0 0"
    using as_quaternion_main [OF na] by (simp add: ta)
  have qc: "as_quaternion (Rotation_init (1/4) 0 0) = Quaternion_init (cos (pi / 4)) (sin (pi / 4)) 0 0"
    using as_quaternion_main [OF nc] by (simp add: tc)
  have "Quaternion_mul (Quaternion_init 1 0 0 0) q = q" for q
    by (simp add: Quaternion_mul_def Quaternion_init_def)
  then have th: "Rotation_then (Rotation_init ?t 0 0) (Rotation_init 0 0 0) = Inr (Rotation_init (1/4) 0 0)"
    using round_trip_fails_turns_snapped by (simp add: Rotation_then_def as_quaternion_small(2))
  have la: "0.000001 \<le> turns (Rotation_init ?t 0 0)" and lc: "0.000001 \<le> turns (Rotation_init (1/4) 0 0)"
    by (simp_all add: ta tc)
  obtain ka where ka: "ka \<noteq> 0"
    "as_pauli_operation (Rotation_init ?t 0 0) = mat_scale ka (quaternion_matrix (as_quaternion (Rotation_init ?t 0 0)))"
    using as_pauli_main [OF la] cis_neq_zero by blast
  obtain kc where kc: "kc \<noteq> 0"
    "as_pauli_operation (Rotation_init (1/4) 0 0) = mat_scale kc (quaternion_matrix (as_quaternion (Rotation_init (1/4) 0 0)))"
    using as_pauli_main [OF lc] cis_neq_zero by blast
  have "\<not> (\<exists>k. cmod k = 1 \<and> as_pauli_operation (Rotation_init (1/4) 0 0) =
        mat_scale k (mat_mul (as_pauli_operation (Rotation_init 0 0 0))
                             (as_pauli_operation (Rotation_init ?t 0 0))))"
  proof
    assume "\<exists>k. cmod k = 1 \<and> as_pauli_operation (Rotation_init (1/4) 0 0) =
        mat_scale k (mat_mul (as_pauli_operation (Rotation_init 0 0 0))
                             (as_pauli_operation (Rotation_init ?t 0 0)))"
    then obtain k where e: "mat_scale kc (quaternion_matrix (Quaternion_init (cos (pi / 4)) (sin (pi / 4)) 0 0))
        = mat_scale (k * ka) (quaternion_matrix (Quaternion_init (cos (pi * ?t)) (sin (pi * ?t)) 0 0))"
      unfolding as_pauli_zero mat_mul_identity_left ka(2) kc(2) qa qc mat_scale_scale by blast
    have e0: "kc * of_real (cos (pi / 4)) = k * ka * of_real (cos (pi * ?t))"
      using arg_cong [OF e, of m00] unfolding quaternion_matrix_x_axis .
    have e1: "kc * (- \<i> * of_real (sin (pi / 4))) = k * ka * (- \<i> * of_real (sin (pi * ?t)))"
      using arg_cong [OF e, of m01] unfolding quaternion_matrix_x_axis .
    define A B C D where "A = cos (pi / 4)" and "B = sin (pi / 4)"
      and "C = cos (pi * ?t)" and "D = sin (pi * ?t)"
    note f0 = e0 [folded A_def C_def] and f1 = e1 [folded B_def D_def]
    have k0: "k \<noteq> 0"
    proof
      assume "k = 0"
      with e0 kc(1) have "cos (pi / 4) = 0" by simp
      then show False by (simp add: cos_45)
    qed
    have "kc * of_real A * (k * ka * (- \<i> * of_real D))
        = kc * (- \<i> * of_real B) * (k * ka * of_real C)"
      unfolding f0 f1 by (simp add: mult_ac)
    then have "complex_of_real A * of_real D = of_real B * of_real C"
      using ka(1) kc(1) k0 by simp
    then have "complex_of_real (A * D) = of_real (B * C)"
      by simp
    then have "A * D = B * C"
      by (simp only: of_real_eq_iff)
    then have "D * A - C * B = 0"
      by (simp add: mult.commute)
    then have "sin (pi * ?t - pi / 4) = 0"
      unfolding A_def B_def C_def D_def sin_diff .
    moreover have "pi * ?t - pi / 4 = pi / 10000000" by simp
    ultimately have "sin (pi / 10000000) = 0" by (simp only:)
    moreover have "0 < sin (pi / 10000000)"
      by (rule sin_gt_zero) (simp_all add: pi_gt_zero)
    ultimately show False by simp
  qed
  with th show ?thesis by simp
qed

text \<open>
  C1, amended: for all Rotations \<open>a\<close> and \<open>b\<close> such that \<^verbatim>\<open>a.then(b)\<close> returns a rotation
  \<open>c\<close>, the turns of \<open>a\<close>, of \<open>b\<close> and of \<open>c\<close> are each 0 or at least \<open>0.000001\<close>, and
  \<^verbatim>\<open>smooth_near_quarter_turn\<close> changes none of the four values it is applied to in
  \<^verbatim>\<open>from_quaternion\<close>, the matrix \<^verbatim>\<open>c.as_pauli_operation()\<close> equals the product
  \<^verbatim>\<open>b.as_pauli_operation() * a.as_pauli_operation()\<close> multiplied by some complex scalar of
  modulus 1 (in exact real arithmetic).
\<close>

theorem pauli_homomorphism:
  assumes ha: "turns (Rotation_init xa ya za) = 0 \<or> 0.000001 \<le> turns (Rotation_init xa ya za)"
    and hb: "turns (Rotation_init xb yb zb) = 0 \<or> 0.000001 \<le> turns (Rotation_init xb yb zb)"
    and ret: "Rotation_then (Rotation_init xa ya za) (Rotation_init xb yb zb) = Inr c"
    and hc: "turns c = 0 \<or> 0.000001 \<le> turns c"
    and si: "smoothing_inactive
       (Quaternion_mul (as_quaternion (Rotation_init xb yb zb)) (as_quaternion (Rotation_init xa ya za)))"
  shows "\<exists>k. cmod k = 1 \<and> as_pauli_operation c =
     mat_scale k (mat_mul (as_pauli_operation (Rotation_init xb yb zb))
                          (as_pauli_operation (Rotation_init xa ya za)))"
proof -
  define qa qb where "qa = as_quaternion (Rotation_init xa ya za)"
    and "qb = as_quaternion (Rotation_init xb yb zb)"
  define q where "q = Quaternion_mul qb qa"
  define w0 x0 y0 z0 where "w0 = q_w q" and "x0 = q_x q" and "y0 = q_y q" and "z0 = q_z q"
  have qi: "q = Quaternion_init w0 x0 y0 z0"
    by (simp add: Quaternion_init_def w0_def x0_def y0_def z0_def)
  have u: "qnorm2 (Quaternion_init w0 x0 y0 z0) = 1"
    unfolding qi [symmetric] by (simp add: q_def qa_def qb_def qnorm2_mul qnorm2_as_quaternion)
  have r: "from_quaternion (Quaternion_init w0 x0 y0 z0) = Inr c"
    unfolding qi [symmetric] using ret by (simp add: Rotation_then_def q_def qa_def qb_def)
  have s: "smoothing_inactive (Quaternion_init w0 x0 y0 z0)"
    unfolding qi [symmetric] using si by (simp add: q_def qa_def qb_def)
  from as_pauli_unit_phase [OF ha] obtain ka where ka: "cmod ka = 1"
    "as_pauli_operation (Rotation_init xa ya za) = mat_scale ka (quaternion_matrix qa)"
    unfolding qa_def by blast
  from as_pauli_unit_phase [OF hb] obtain kb where kb: "cmod kb = 1"
    "as_pauli_operation (Rotation_init xb yb zb) = mat_scale kb (quaternion_matrix qb)"
    unfolding qb_def by blast
  have "\<exists>kc. cmod kc = 1 \<and> as_pauli_operation c = mat_scale kc (quaternion_matrix q)"
  proof -
    from from_quaternion_unit [OF u s r, folded qi]
    consider "c = Rotation_init 0 0 0" "q = Quaternion_init 1 0 0 0"
      | "0 < turns c" "c = Rotation_init (rot_x c) (rot_y c) (rot_z c)"
        "0.000001 \<le> turns c \<longrightarrow> as_quaternion c = q"
      by blast
    then show ?thesis
    proof cases
      case 1
      then have "cmod 1 = 1 \<and> as_pauli_operation c = mat_scale 1 (quaternion_matrix q)"
        by (simp add: as_pauli_zero quaternion_matrix_one mat_scale_one)
      then show ?thesis by blast
    next
      case 2
      then have t: "0.000001 \<le> turns c" and aq: "as_quaternion c = q"
        using hc by auto
      have "turns (Rotation_init (rot_x c) (rot_y c) (rot_z c)) = 0
          \<or> 0.000001 \<le> turns (Rotation_init (rot_x c) (rot_y c) (rot_z c))"
        using t 2(2) by simp
      from as_pauli_unit_phase [OF this] show ?thesis
        using 2(2) aq by simp
    qed
  qed
  then obtain kc where kc: "cmod kc = 1" "as_pauli_operation c = mat_scale kc (quaternion_matrix q)"
    by blast
  have ka0: "ka \<noteq> 0" and kb0: "kb \<noteq> 0" using ka(1) kb(1) by auto
  have "mat_scale (kc / (kb * ka)) (mat_mul (as_pauli_operation (Rotation_init xb yb zb))
                          (as_pauli_operation (Rotation_init xa ya za)))
      = mat_scale kc (quaternion_matrix q)"
    unfolding ka(2) kb(2) mat_mul_scale mat_scale_scale q_def quaternion_matrix_mul
    using ka0 kb0 by simp
  moreover have "cmod (kc / (kb * ka)) = 1"
    using ka(1) kb(1) kc(1) by (simp add: norm_divide norm_mult)
  ultimately show ?thesis
    using kc(2) by metis
qed

theorem pauli_homomorphism_witness:
  "Rotation_then (Rotation_init (1/2) 0 0) (Rotation_init 0 (1/2) 0) = Inr (Rotation_init 0 0 (- (1/2)))
   \<and> (\<exists>k. cmod k = 1 \<and> as_pauli_operation (Rotation_init 0 0 (- (1/2))) =
     mat_scale k (mat_mul (as_pauli_operation (Rotation_init 0 (1/2) 0))
                          (as_pauli_operation (Rotation_init (1/2) 0 0))))"
proof -
  have ha: "turns (Rotation_init (1/2) 0 0) = 0 \<or> 0.000001 \<le> turns (Rotation_init (1/2) 0 0)"
    and hb: "turns (Rotation_init 0 (1/2) 0) = 0 \<or> 0.000001 \<le> turns (Rotation_init 0 (1/2) 0)"
    and hc: "turns (Rotation_init 0 0 (- (1/2))) = 0 \<or> 0.000001 \<le> turns (Rotation_init 0 0 (- (1/2)))"
    by (simp_all add: turns_init)
  have si: "smoothing_inactive
       (Quaternion_mul (as_quaternion (Rotation_init 0 (1/2) 0)) (as_quaternion (Rotation_init (1/2) 0 0)))"
    by (simp add: as_quaternion_half_x as_quaternion_half_y mul_half_y_half_x smoothing_inactive_half)
  from pauli_homomorphism [OF ha hb then_half_x_half_y hc si] then_half_x_half_y
  show ?thesis by simp
qed

subsection \<open>Interpolation of unitary matrices\<close>

















end
